theory Spec2Isabelle
  imports
    Complex_Main
    "HOL-Library.Sublist"
    "HOL-Library.Char_ord"
    "HOL-Library.List_Lexorder"
begin

section \<open>The local Roboflow inference service\<close>

text \<open>
  The service (\<^verbatim>\<open>local_modules/roboflow_local_service.py\<close>) is a Flask application with
  two handlers of interest, \<^verbatim>\<open>analyze_image\<close> (POST /analyze) and \<^verbatim>\<open>validate_image\<close>
  (POST /validate). Each reads the JSON body of the request, picks an image source from
  it, calls \<^verbatim>\<open>client.run_workflow\<close> and reshapes the returned JSON. The whole body of a
  handler stands in a \<^verbatim>\<open>try\<close> whose \<^verbatim>\<open>except Exception\<close> answers with status 500.

  Python is dynamically typed and the data is JSON, so the embedding works on a datatype
  of JSON values and gives every operation the handlers use its Python meaning on each
  kind of value, the exception it raises included.
\<close>

subsection \<open>Python values and exceptions\<close>

text \<open>
  The values \<^verbatim>\<open>json.loads\<close> produces. An \<^verbatim>\<open>int\<close> is unbounded; a \<^verbatim>\<open>float\<close> is given by the
  rational number the (finite) double denotes, so that the comparisons of the code are
  exact on it; a \<^verbatim>\<open>str\<close> is its UTF-8 bytes, whose lexicographic order is the order of the
  code points; a \<^verbatim>\<open>dict\<close> is the list of its items in insertion order, read with
  \<^const>\<open>map_of\<close>. NaN and the infinities, which are not JSON values, are outside the
  model.
\<close>

datatype pyval =
    PNone
  | PBool bool
  | PInt int
  | PFloat rat
  | PStr string
  | PList "pyval list"
  | PDict "(string \<times> pyval) list"

text \<open>
  The exceptions of the interpreter that the handlers' own operations can raise, and
  \<open>External\<close> for one raised by a library call (\<^verbatim>\<open>request.get_json\<close>,
  \<^verbatim>\<open>client.run_workflow\<close>), tagged with a description.
\<close>

datatype exn = TypeError | AttributeError | KeyError | ValueError | External string

definition and_then :: "exn + 'a \<Rightarrow> ('a \<Rightarrow> exn + 'b) \<Rightarrow> exn + 'b" where
  "and_then m f = (case m of Inl e \<Rightarrow> Inl e | Inr v \<Rightarrow> f v)"

fun map_exn :: "('a \<Rightarrow> exn + 'b) \<Rightarrow> 'a list \<Rightarrow> exn + 'b list" where
  "map_exn f [] = Inr []"
| "map_exn f (x # xs) =
     and_then (f x) (\<lambda>y. and_then (map_exn f xs) (\<lambda>ys. Inr (y # ys)))"

text \<open>\<^verbatim>\<open>bool(v)\<close>: the truth value of \<^verbatim>\<open>v\<close> in \<^verbatim>\<open>if v\<close>, \<^verbatim>\<open>not v\<close> and \<^verbatim>\<open>v or w\<close>.\<close>

fun truthy :: "pyval \<Rightarrow> bool" where
  "truthy PNone = False"
| "truthy (PBool b) = b"
| "truthy (PInt i) = (i \<noteq> 0)"
| "truthy (PFloat r) = (r \<noteq> 0)"
| "truthy (PStr s) = (s \<noteq> [])"
| "truthy (PList xs) = (xs \<noteq> [])"
| "truthy (PDict kvs) = (kvs \<noteq> [])"

text \<open>The number a value is in a comparison: \<^verbatim>\<open>bool\<close> is a subclass of \<^verbatim>\<open>int\<close>.\<close>

fun num_val :: "pyval \<Rightarrow> rat option" where
  "num_val (PBool b) = Some (if b then 1 else 0)"
| "num_val (PInt i) = Some (of_int i)"
| "num_val (PFloat r) = Some r"
| "num_val _ = None"

text \<open>\<^verbatim>\<open>x == y\<close>. It never raises on these values; values of different kinds are unequal.\<close>

fun py_eq :: "pyval \<Rightarrow> pyval \<Rightarrow> bool" where
  "py_eq (PList xs) (PList ys) = list_all2 py_eq xs ys"
| "py_eq (PDict a) (PDict b) =
     (length a = length b \<and>
      list_all (\<lambda>(k, v). case map_of b k of None \<Rightarrow> False | Some w \<Rightarrow> py_eq v w) a)"
| "py_eq (PStr s) (PStr t) = (s = t)"
| "py_eq PNone PNone = True"
| "py_eq x y = (case (num_val x, num_val y) of (Some a, Some b) \<Rightarrow> a = b | _ \<Rightarrow> False)"

text \<open>
  \<^verbatim>\<open>x > y\<close> and \<^verbatim>\<open>x >= y\<close>. Numbers compare by value, strings and lists
  lexicographically (a list at the first index where the items differ by \<^verbatim>\<open>==\<close>);
  every other pair raises \<^verbatim>\<open>TypeError\<close>.
\<close>

datatype cmp_op = Gt | Ge

fun cmp_holds :: "cmp_op \<Rightarrow> ('a::linorder) \<Rightarrow> 'a \<Rightarrow> bool" where
  "cmp_holds Gt a b = (b < a)"
| "cmp_holds Ge a b = (b \<le> a)"

fun py_compare :: "cmp_op \<Rightarrow> pyval \<Rightarrow> pyval \<Rightarrow> exn + bool"
  and list_compare :: "cmp_op \<Rightarrow> pyval list \<Rightarrow> pyval list \<Rightarrow> exn + bool" where
  "py_compare c (PStr s) (PStr t) = Inr (cmp_holds c s t)"
| "py_compare c (PList xs) (PList ys) = list_compare c xs ys"
| "py_compare c x y =
     (case (num_val x, num_val y) of
        (Some a, Some b) \<Rightarrow> Inr (cmp_holds c a b)
      | _ \<Rightarrow> Inl TypeError)"
| "list_compare c [] [] = Inr (c = Ge)"
| "list_compare c [] (y # ys) = Inr False"
| "list_compare c (x # xs) [] = Inr True"
| "list_compare c (x # xs) (y # ys) =
     (if py_eq x y then list_compare c xs ys else py_compare c x y)"

text \<open>\<^verbatim>\<open>key in v\<close> for a string \<^verbatim>\<open>key\<close>: a key of a dict, an item of a list, a substring.\<close>

fun is_substring :: "string \<Rightarrow> string \<Rightarrow> bool" where
  "is_substring k [] = (k = [])"
| "is_substring k (c # s) = (prefix k (c # s) \<or> is_substring k s)"

fun py_in :: "string \<Rightarrow> pyval \<Rightarrow> exn + bool" where
  "py_in k (PDict kvs) = Inr (map_of kvs k \<noteq> None)"
| "py_in k (PList xs) = Inr (PStr k \<in> set xs)"
| "py_in k (PStr s) = Inr (is_substring k s)"
| "py_in k _ = Inl TypeError"

text \<open>\<^verbatim>\<open>v[key]\<close> for a string \<^verbatim>\<open>key\<close>: only a dict can be indexed by a string.\<close>

fun py_getitem :: "pyval \<Rightarrow> string \<Rightarrow> exn + pyval" where
  "py_getitem (PDict kvs) k = (case map_of kvs k of None \<Rightarrow> Inl KeyError | Some v \<Rightarrow> Inr v)"
| "py_getitem _ k = Inl TypeError"

text \<open>\<^verbatim>\<open>v.get(key, default)\<close>: only a dict has the method.\<close>

fun py_get :: "pyval \<Rightarrow> string \<Rightarrow> pyval \<Rightarrow> exn + pyval" where
  "py_get (PDict kvs) k d = Inr (case map_of kvs k of None \<Rightarrow> d | Some v \<Rightarrow> v)"
| "py_get _ k d = Inl AttributeError"

text \<open>
  The items \<^verbatim>\<open>for x in v\<close> visits: those of a list, the keys of a dict, the characters
  of a string (here one item for each byte, in Python one for each code point: the
  handlers call \<^verbatim>\<open>.get\<close> on the first item, which raises either way).
\<close>

fun py_iter :: "pyval \<Rightarrow> exn + pyval list" where
  "py_iter (PList xs) = Inr xs"
| "py_iter (PDict kvs) = Inr (map (\<lambda>(k, v). PStr k) kvs)"
| "py_iter (PStr s) = Inr (map (\<lambda>c. PStr [c]) s)"
| "py_iter _ = Inl TypeError"

text \<open>
  \<^verbatim>\<open>max(xs)\<close> and \<^verbatim>\<open>max(xs, key=f)\<close>: one pass that keeps the item seen so far and
  replaces it only by one that is greater (\<^verbatim>\<open>>\<close>), so the first of several greatest
  items is returned. With a key, the key of an item is computed when the pass reaches it.
  An empty sequence raises \<^verbatim>\<open>ValueError\<close>.
\<close>

fun max_from :: "pyval \<Rightarrow> pyval list \<Rightarrow> exn + pyval" where
  "max_from m [] = Inr m"
| "max_from m (x # xs) =
     and_then (py_compare Gt x m) (\<lambda>g. max_from (if g then x else m) xs)"

definition py_max :: "pyval list \<Rightarrow> exn + pyval" where
  "py_max xs = (case xs of [] \<Rightarrow> Inl ValueError | x # rest \<Rightarrow> max_from x rest)"

fun max_key_from ::
  "(pyval \<Rightarrow> exn + pyval) \<Rightarrow> pyval \<Rightarrow> pyval \<Rightarrow> pyval list \<Rightarrow> exn + pyval" where
  "max_key_from f mitem mval [] = Inr mitem"
| "max_key_from f mitem mval (x # xs) =
     and_then (f x) (\<lambda>v.
     and_then (py_compare Gt v mval) (\<lambda>g.
       if g then max_key_from f x v xs else max_key_from f mitem mval xs))"

definition py_max_key :: "(pyval \<Rightarrow> exn + pyval) \<Rightarrow> pyval list \<Rightarrow> exn + pyval" where
  "py_max_key f xs =
     (case xs of
        [] \<Rightarrow> Inl ValueError
      | x # rest \<Rightarrow> and_then (f x) (\<lambda>v. max_key_from f x v rest))"

subsection \<open>The environment of a request\<close>

text \<open>
  What a handler reads from outside itself: the outcome of \<^verbatim>\<open>request.get_json()\<close>
  (the parsed body, or the exception Flask raises), the collaborator
  \<^verbatim>\<open>client.run_workflow\<close> as a function of the image source (a result or an
  exception; the workspace, the workflow and \<^verbatim>\<open>use_cache\<close> are constants of the code),
  and the interpreter's two renderings as text: \<^verbatim>\<open>str(e)\<close> of an exception and the
  formatting of a value that is not a string inside an f-string.
\<close>

record env =
  request_json :: "exn + pyval"
  run_workflow :: "pyval \<Rightarrow> exn + pyval"
  str_exn :: "exn \<Rightarrow> string"
  str_value :: "pyval \<Rightarrow> string"

text \<open>A response is what \<^verbatim>\<open>jsonify(...)\<close> got, with the HTTP status.\<close>

type_synonym response = "pyval \<times> nat"

definition field :: "response \<Rightarrow> string \<Rightarrow> pyval option" where
  "field r k = (case fst r of PDict kvs \<Rightarrow> map_of kvs k | _ \<Rightarrow> None)"

definition status :: "response \<Rightarrow> nat" where
  "status r = snd r"

text \<open>\<^verbatim>\<open>f'{v}'\<close>: a string is inserted as it is.\<close>

definition py_format :: "env \<Rightarrow> pyval \<Rightarrow> string" where
  "py_format E v = (case v of PStr s \<Rightarrow> s | _ \<Rightarrow> str_value E v)"

subsection \<open>The code shared by the two handlers\<close>

text \<open>
  \<^verbatim>\<open>data.get('image_path') or data.get('image_url') or data.get('image')\<close>
  (lines 48 and 105): \<^verbatim>\<open>or\<close> returns its first truthy operand, else the last one.
\<close>

definition image_source :: "pyval \<Rightarrow> exn + pyval" where
  "image_source data =
     and_then (py_get data ''image_path'' PNone) (\<lambda>a.
       if truthy a then Inr a
       else and_then (py_get data ''image_url'' PNone) (\<lambda>b.
         if truthy b then Inr b
         else py_get data ''image'' PNone))"

text \<open>
  Lines 70 to 76 and 127 to 132, the same in both handlers: the way to the prediction
  list. \<open>None\<close> when a guard fails (the result is falsy or not a list, a key is not
  there, the list is falsy), so that the handler keeps its initial values.
  \<^verbatim>\<open>output['output2']\<close> is evaluated once here; the code evaluates it twice, to the
  same value.
\<close>

definition find_predictions :: "pyval \<Rightarrow> exn + pyval option" where
  "find_predictions result =
     (case result of
        PList (output # rest) \<Rightarrow>
          and_then (py_in ''output2'' output) (\<lambda>has_output2.
            if \<not> has_output2 then Inr None
            else and_then (py_getitem output ''output2'') (\<lambda>output2.
              and_then (py_in ''predictions'' output2) (\<lambda>has_predictions.
                if \<not> has_predictions then Inr None
                else and_then (py_getitem output2 ''predictions'') (\<lambda>predictions.
                  if truthy predictions then Inr (Some predictions) else Inr None))))
      | _ \<Rightarrow> Inr None)"

text \<open>\<^verbatim>\<open>pred.get('class') or pred.get('label')\<close> (lines 79 and 136).\<close>

definition label_of :: "pyval \<Rightarrow> exn + pyval" where
  "label_of pred =
     and_then (py_get pred ''class'' PNone) (\<lambda>c.
       if truthy c then Inr c else py_get pred ''label'' PNone)"

text \<open>\<^verbatim>\<open>p.get('confidence', 0)\<close> (lines 80, 82, 134 and 135).\<close>

definition confidence_of :: "pyval \<Rightarrow> exn + pyval" where
  "confidence_of pred = py_get pred ''confidence'' (PInt 0)"

subsection \<open>POST /analyze\<close>

text \<open>The body of the loop of line 77: the dict appended to \<^verbatim>\<open>predictions\<close>.\<close>

definition normalize_pred :: "pyval \<Rightarrow> exn + pyval" where
  "normalize_pred pred =
     and_then (label_of pred) (\<lambda>c.
     and_then (confidence_of pred) (\<lambda>conf.
       Inr (PDict [(''class'', c), (''confidence'', conf)])))"

text \<open>
  Lines 66 to 82: the normalized predictions and the top confidence. The loop runs to
  its end before the list of line 82 is built and its maximum taken.
\<close>

definition analyze_extract :: "pyval \<Rightarrow> exn + (pyval list \<times> pyval)" where
  "analyze_extract result =
     and_then (find_predictions result) (\<lambda>found.
       case found of
         None \<Rightarrow> Inr ([], PInt 0)
       | Some model_predictions \<Rightarrow>
           and_then (py_iter model_predictions) (\<lambda>items.
           and_then (map_exn normalize_pred items) (\<lambda>predictions.
           and_then (map_exn confidence_of items) (\<lambda>confidences.
           and_then (py_max confidences) (\<lambda>confidence.
             Inr (predictions, confidence))))))"

text \<open>The \<^verbatim>\<open>try\<close> block of \<^verbatim>\<open>analyze_image\<close>, lines 39 to 89.\<close>

definition analyze_try :: "env \<Rightarrow> exn + response" where
  "analyze_try E =
     and_then (request_json E) (\<lambda>data.
       if \<not> truthy data then
         Inr (PDict [(''success'', PBool False), (''error'', PStr ''No data provided'')], 400)
       else and_then (image_source data) (\<lambda>src.
         if \<not> truthy src then
           Inr (PDict [(''success'', PBool False),
                       (''error'', PStr ''No image source provided'')], 400)
         else and_then (run_workflow E src) (\<lambda>result.
           and_then (analyze_extract result) (\<lambda>(predictions, confidence).
             Inr (PDict [(''success'', PBool True),
                         (''predictions'', PList predictions),
                         (''confidence'', confidence),
                         (''raw_result'', result)], 200)))))"

definition analyze_image :: "env \<Rightarrow> response" where
  "analyze_image E =
     (case analyze_try E of
        Inr r \<Rightarrow> r
      | Inl e \<Rightarrow>
          (PDict [(''success'', PBool False), (''error'', PStr (str_exn E e))], 500))"

subsection \<open>POST /validate\<close>

text \<open>
  The literal \<^verbatim>\<open>0.7\<close> of line 125 is the double nearest to 7/10, which is this number
  (\<^verbatim>\<open>(0.7).as_integer_ratio()\<close>); a body's JSON text \<^verbatim>\<open>0.7\<close> is read as the same double.
\<close>

definition threshold :: rat where
  "threshold = 3152519739159347 / 4503599627370496"

text \<open>
  Lines 134 to 136: the best prediction, its confidence and its label.
\<close>

definition validate_select :: "pyval \<Rightarrow> exn + (pyval \<times> pyval)" where
  "validate_select predictions =
     and_then (py_iter predictions) (\<lambda>items.
     and_then (py_max_key confidence_of items) (\<lambda>best_pred.
     and_then (confidence_of best_pred) (\<lambda>confidence.
     and_then (label_of best_pred) (\<lambda>detected_issue.
       Inr (confidence, detected_issue)))))"

text \<open>
  Lines 121 to 137: \<^verbatim>\<open>confidence\<close>, \<^verbatim>\<open>detected_issue\<close> and \<^verbatim>\<open>allow_upload\<close>.
\<close>

definition validate_decide :: "pyval \<Rightarrow> exn + (pyval \<times> pyval \<times> bool)" where
  "validate_decide result =
     and_then (find_predictions result) (\<lambda>found.
       case found of
         None \<Rightarrow> Inr (PInt 0, PNone, False)
       | Some predictions \<Rightarrow>
           and_then (validate_select predictions) (\<lambda>(confidence, detected_issue).
           and_then (py_compare Ge confidence (PFloat threshold)) (\<lambda>allow_upload.
             Inr (confidence, detected_issue, allow_upload))))"

text \<open>Line 144.\<close>

definition message_of :: "env \<Rightarrow> pyval \<Rightarrow> string" where
  "message_of E detected_issue =
     (if truthy detected_issue then ''Detected Issue: '' @ py_format E detected_issue
      else ''No civic issue detected'')"

text \<open>The \<^verbatim>\<open>try\<close> block of \<^verbatim>\<open>validate_image\<close>, lines 104 to 146.\<close>

definition validate_try :: "env \<Rightarrow> exn + response" where
  "validate_try E =
     and_then (request_json E) (\<lambda>data.
     and_then (image_source data) (\<lambda>src.
       if \<not> truthy src then
         Inr (PDict [(''success'', PBool False),
                     (''error'', PStr ''No image source provided'')], 400)
       else and_then (run_workflow E src) (\<lambda>result.
         and_then (validate_decide result) (\<lambda>(confidence, detected_issue, allow_upload).
           Inr (PDict [(''success'', PBool True),
                       (''confidence'', confidence),
                       (''modelConfidence'', confidence),
                       (''allowUpload'', PBool allow_upload),
                       (''message'', PStr (message_of E detected_issue)),
                       (''detectedIssue'', detected_issue)], 200)))))"

definition validate_image :: "env \<Rightarrow> response" where
  "validate_image E =
     (case validate_try E of
        Inr r \<Rightarrow> r
      | Inl e \<Rightarrow>
          (PDict [(''success'', PBool False),
                  (''error'', PStr (str_exn E e)),
                  (''confidence'', PInt 0),
                  (''allowUpload'', PBool False)], 500))"

subsection \<open>Notions of the specification\<close>

text \<open>
  The request names an image source and the collaborator, called with it, returns
  \<open>result\<close>: the situation in which a handler gets to read a raw result.
\<close>

definition workflow_returns :: "env \<Rightarrow> pyval \<Rightarrow> bool" where
  "workflow_returns E result =
     (case request_json E of
        Inl e \<Rightarrow> False
      | Inr data \<Rightarrow>
          (case image_source data of
             Inl e \<Rightarrow> False
           | Inr src \<Rightarrow> truthy src \<and> run_workflow E src = Inr result))"

text \<open>
  The documented shape of a raw result: a list of output bundles whose element 0 is an
  object holding, under \<^verbatim>\<open>output2\<close>, an object with the prediction list under
  \<^verbatim>\<open>predictions\<close>.
\<close>

definition raw_predictions :: "pyval \<Rightarrow> pyval list option" where
  "raw_predictions result =
     (case result of
        PList (PDict bundle # rest) \<Rightarrow>
          (case map_of bundle ''output2'' of
             Some (PDict output2) \<Rightarrow>
               (case map_of output2 ''predictions'' of
                  Some (PList preds) \<Rightarrow> Some preds
                | _ \<Rightarrow> None)
           | _ \<Rightarrow> None)
      | _ \<Rightarrow> None)"

text \<open>
  What the lookup \<^verbatim>\<open>k in v\<close> followed by \<^verbatim>\<open>v[k]\<close> meets in a value \<open>v\<close> that does not
  hold \<open>k\<close> as the key of an object. The key is missing when \<open>v\<close> is an object, a
  list or a string that does not contain it: \<^verbatim>\<open>k in v\<close> is false. The lookup raises when
  \<open>v\<close> is null, a boolean or a number (\<^verbatim>\<open>k in v\<close> raises), or a list or a string that
  contains \<open>k\<close> (\<^verbatim>\<open>v[k]\<close> raises).
\<close>

definition key_missing :: "string \<Rightarrow> pyval \<Rightarrow> bool" where
  "key_missing k v =
     (case v of
        PDict kvs \<Rightarrow> map_of kvs k = None
      | PList xs \<Rightarrow> PStr k \<notin> set xs
      | PStr s \<Rightarrow> \<not> is_substring k s
      | _ \<Rightarrow> False)"

definition key_unreadable :: "string \<Rightarrow> pyval \<Rightarrow> bool" where
  "key_unreadable k v =
     (case v of
        PDict kvs \<Rightarrow> False
      | PList xs \<Rightarrow> PStr k \<in> set xs
      | PStr s \<Rightarrow> is_substring k s
      | _ \<Rightarrow> True)"

text \<open>
  A raw result in which the handlers find no prediction list and do not raise: it is
  absent (\<^verbatim>\<open>None\<close>), empty or not a list; or \<^verbatim>\<open>output2\<close> is missing in its first
  bundle; or \<^verbatim>\<open>predictions\<close> is missing in \<^verbatim>\<open>output2\<close>; or the value of \<^verbatim>\<open>predictions\<close>
  is falsy (an empty list, null, false, 0).
\<close>

definition lacks_predictions :: "pyval \<Rightarrow> bool" where
  "lacks_predictions result =
     (case result of
        PList (out # rest) \<Rightarrow>
          key_missing ''output2'' out \<or>
          (case out of
             PDict bundle \<Rightarrow>
               (case map_of bundle ''output2'' of
                  None \<Rightarrow> False
                | Some output2 \<Rightarrow>
                    key_missing ''predictions'' output2 \<or>
                    (case output2 of
                       PDict kvs \<Rightarrow>
                         (case map_of kvs ''predictions'' of
                            None \<Rightarrow> False
                          | Some p \<Rightarrow> \<not> truthy p)
                     | _ \<Rightarrow> False))
           | _ \<Rightarrow> False)
      | _ \<Rightarrow> True)"

text \<open>
  A raw result on which the lookup of \<^verbatim>\<open>output2\<close> in the first bundle, or of
  \<^verbatim>\<open>predictions\<close> in \<^verbatim>\<open>output2\<close>, raises.
\<close>

definition unreadable_result :: "pyval \<Rightarrow> bool" where
  "unreadable_result result =
     (case result of
        PList (out # rest) \<Rightarrow>
          key_unreadable ''output2'' out \<or>
          (case out of
             PDict bundle \<Rightarrow>
               (case map_of bundle ''output2'' of
                  None \<Rightarrow> False
                | Some output2 \<Rightarrow> key_unreadable ''predictions'' output2)
           | _ \<Rightarrow> False)
      | _ \<Rightarrow> False)"

text \<open>A raw result that holds a truthy value under \<^verbatim>\<open>output2\<close> and \<^verbatim>\<open>predictions\<close>.\<close>

definition truthy_predictions :: "pyval \<Rightarrow> bool" where
  "truthy_predictions result =
     (case result of
        PList (PDict bundle # rest) \<Rightarrow>
          (case map_of bundle ''output2'' of
             Some (PDict kvs) \<Rightarrow>
               (case map_of kvs ''predictions'' of Some p \<Rightarrow> truthy p | None \<Rightarrow> False)
           | _ \<Rightarrow> False)
      | _ \<Rightarrow> False)"

text \<open>
  A prediction record as the data model has it: an object whose \<^verbatim>\<open>confidence\<close>, when
  there, is a number. \<open>confidence_value\<close> is that number (0 when the field is missing,
  as \<^verbatim>\<open>.get('confidence', 0)\<close> reads it).
\<close>

definition numeric_prediction :: "pyval \<Rightarrow> bool" where
  "numeric_prediction p =
     (case p of
        PDict kvs \<Rightarrow>
          (case map_of kvs ''confidence'' of None \<Rightarrow> True | Some c \<Rightarrow> num_val c \<noteq> None)
      | _ \<Rightarrow> False)"

definition confidence_value :: "pyval \<Rightarrow> rat" where
  "confidence_value p =
     (case confidence_of p of
        Inr c \<Rightarrow> (case num_val c of Some r \<Rightarrow> r | None \<Rightarrow> 0)
      | Inl e \<Rightarrow> 0)"

subsection \<open>A concrete environment for the examples\<close>

text \<open>
  A request that names an image, a collaborator with a fixed outcome, and sample
  renderings of exceptions and values as text.
\<close>

fun example_str_exn :: "exn \<Rightarrow> string" where
  "example_str_exn (External text) = text"
| "example_str_exn _ = ''error''"

fun example_str_value :: "pyval \<Rightarrow> string" where
  "example_str_value PNone = ''None''"
| "example_str_value _ = ''value''"

definition example_env :: "exn + pyval \<Rightarrow> exn + pyval \<Rightarrow> env" where
  "example_env body outcome =
     \<lparr>request_json = body,
      run_workflow = (\<lambda>src. outcome),
      str_exn = example_str_exn,
      str_value = example_str_value\<rparr>"

definition image_request :: "exn + pyval" where
  "image_request = Inr (PDict [(''image_url'', PStr ''road.jpg'')])"

definition raw_result :: "pyval list \<Rightarrow> pyval" where
  "raw_result preds = PList [PDict [(''output2'', PDict [(''predictions'', PList preds)])]]"


section \<open>Properties of the runtime operations\<close>

lemma and_then_simps:
  "and_then (Inl e) f = Inl e"
  "and_then (Inr v) f = f v"
  by (simp_all add: and_then_def)

lemma and_then_Inr_iff:
  "and_then m f = Inr r \<longleftrightarrow> (\<exists>v. m = Inr v \<and> f v = Inr r)"
  by (cases m) (simp_all add: and_then_simps)

text \<open>
  A body from which a truthy image source was read is a non-empty object, so the guard
  \<^verbatim>\<open>if not data\<close> of /analyze lets it pass: once the collaborator has returned, each
  \<^verbatim>\<open>try\<close> block is the processing of the result.
\<close>

lemma image_source_truthy_data:
  assumes "image_source data = Inr src" and "truthy src"
  shows "truthy data"
proof (cases data)
  case (PDict kvs)
  show ?thesis
  proof (cases kvs)
    case Nil
    with PDict assms show ?thesis
      by (simp add: image_source_def and_then_simps)
  next
    case (Cons kv rest)
    with PDict show ?thesis by simp
  qed
qed (use assms in \<open>simp_all add: image_source_def and_then_simps\<close>)

lemma validate_try_returns:
  assumes "workflow_returns E result"
  shows "validate_try E =
     and_then (validate_decide result) (\<lambda>(confidence, detected_issue, allow_upload).
       Inr (PDict [(''success'', PBool True),
                   (''confidence'', confidence),
                   (''modelConfidence'', confidence),
                   (''allowUpload'', PBool allow_upload),
                   (''message'', PStr (message_of E detected_issue)),
                   (''detectedIssue'', detected_issue)], 200))"
  using assms
  by (auto simp: workflow_returns_def validate_try_def and_then_simps split: sum.splits)

lemma analyze_try_returns:
  assumes "workflow_returns E result"
  shows "analyze_try E =
     and_then (analyze_extract result) (\<lambda>(predictions, confidence).
       Inr (PDict [(''success'', PBool True),
                   (''predictions'', PList predictions),
                   (''confidence'', confidence),
                   (''raw_result'', result)], 200))"
  using assms image_source_truthy_data
  by (auto simp: workflow_returns_def analyze_try_def and_then_simps split: sum.splits)

text \<open>Comparisons with a number succeed exactly on numbers.\<close>

lemma py_compare_float:
  "py_compare c v (PFloat t) = Inr b \<longleftrightarrow> (\<exists>r. num_val v = Some r \<and> b = cmp_holds c r t)"
  by (cases v) auto

lemma py_compare_num:
  "num_val x = Some a \<Longrightarrow> num_val y = Some b \<Longrightarrow> py_compare c x y = Inr (cmp_holds c a b)"
  by (cases x; cases y) auto

text \<open>
  \<^verbatim>\<open>max(f(x) for x in xs)\<close> and \<^verbatim>\<open>f(max(xs, key=f))\<close>: the two succeed on the same
  lists and give the same value. (When they fail, the exceptions may differ: the pass
  with a key compares as it goes, the other computes all keys first.)
\<close>

lemma max_key_from_agrees:
  assumes "f mitem = Inr mval"
  shows "and_then (max_key_from f mitem mval xs) f = Inr c \<longleftrightarrow>
         and_then (map_exn f xs) (max_from mval) = Inr c"
  using assms
proof (induction xs arbitrary: mitem mval)
  case Nil
  then show ?case by (simp add: and_then_simps)
next
  case (Cons x xs)
  show ?case
  proof (cases "f x")
    case (Inl e)
    then show ?thesis by (simp add: and_then_simps)
  next
    case (Inr v)
    show ?thesis
    proof (cases "py_compare Gt v mval")
      case (Inl e)
      with Inr show ?thesis
        by (cases "map_exn f xs") (simp_all add: and_then_simps)
    next
      case g: (Inr g)
      have key: "f (if g then x else mitem) = Inr (if g then v else mval)"
        using Inr Cons.prems by simp
      have "and_then (max_key_from f mitem mval (x # xs)) f =
            and_then (max_key_from f (if g then x else mitem) (if g then v else mval) xs) f"
        using Inr g by (simp add: and_then_simps)
      moreover have "and_then (map_exn f (x # xs)) (max_from mval) =
            and_then (map_exn f xs) (max_from (if g then v else mval))"
        using Inr g by (cases "map_exn f xs") (simp_all add: and_then_simps)
      ultimately show ?thesis
        using Cons.IH [of "if g then x else mitem" "if g then v else mval"] key by simp
    qed
  qed
qed

lemma py_max_key_agrees:
  "and_then (py_max_key f xs) f = Inr c \<longleftrightarrow> and_then (map_exn f xs) py_max = Inr c"
proof (cases xs)
  case Nil
  then show ?thesis by (simp add: py_max_key_def py_max_def and_then_simps)
next
  case (Cons x rest)
  show ?thesis
  proof (cases "f x")
    case (Inl e)
    with Cons show ?thesis by (simp add: py_max_key_def and_then_simps)
  next
    case (Inr v)
    have "and_then (py_max_key f xs) f = and_then (max_key_from f x v rest) f"
      using Cons Inr by (simp add: py_max_key_def and_then_simps)
    moreover have "and_then (map_exn f xs) py_max = and_then (map_exn f rest) (max_from v)"
      using Cons Inr by (cases "map_exn f rest") (simp_all add: py_max_def and_then_simps)
    ultimately show ?thesis
      using max_key_from_agrees [of f x v rest c] Inr by simp
  qed
qed

text \<open>A loop that succeeds keeps the length and the order of its list.\<close>

lemma map_exn_Inr:
  "map_exn f xs = Inr ys \<Longrightarrow>
     length ys = length xs \<and> (\<forall>i<length xs. f (xs ! i) = Inr (ys ! i))"
proof (induction xs arbitrary: ys)
  case Nil
  then show ?case by simp
next
  case (Cons x xs)
  from Cons.prems obtain y rest where y: "f x = Inr y" "map_exn f xs = Inr rest" "ys = y # rest"
    by (auto simp: and_then_Inr_iff)
  from Cons.IH [OF y(2)] y show ?case
    by (auto simp: nth_Cons split: nat.splits)
qed

lemma map_exn_all:
  "(\<exists>ys. map_exn f xs = Inr ys) \<longleftrightarrow> (\<forall>x\<in>set xs. \<exists>y. f x = Inr y)"
  by (induction xs) (auto simp: and_then_Inr_iff)

text \<open>The reads of a prediction record succeed exactly on objects.\<close>

lemma confidence_of_Inr: "(\<exists>c. confidence_of p = Inr c) \<longleftrightarrow> (\<exists>kvs. p = PDict kvs)"
  by (cases p) (simp_all add: confidence_of_def)

lemma label_of_Inr: "(\<exists>c. label_of p = Inr c) \<longleftrightarrow> (\<exists>kvs. p = PDict kvs)"
  by (cases p) (simp_all add: label_of_def and_then_simps)

lemma normalize_pred_Inr: "(\<exists>c. normalize_pred p = Inr c) \<longleftrightarrow> (\<exists>kvs. p = PDict kvs)"
proof (cases p)
  case (PDict kvs)
  obtain l where "label_of p = Inr l" using PDict label_of_Inr by blast
  moreover obtain c where "confidence_of p = Inr c" using PDict confidence_of_Inr by blast
  ultimately show ?thesis using PDict by (simp add: normalize_pred_def and_then_simps)
qed (simp_all add: normalize_pred_def label_of_def and_then_simps)

lemma normalize_pred_confidence:
  "normalize_pred p = Inr n \<Longrightarrow> confidence_of n = confidence_of p"
  by (auto simp: normalize_pred_def and_then_Inr_iff confidence_of_def)

lemma map_exn_normalize_confidences:
  "map_exn normalize_pred items = Inr ps \<Longrightarrow>
     map_exn confidence_of ps = map_exn confidence_of items"
proof (induction items arbitrary: ps)
  case Nil
  then show ?case by simp
next
  case (Cons x xs)
  from Cons.prems obtain n rest where n: "normalize_pred x = Inr n"
    "map_exn normalize_pred xs = Inr rest" "ps = n # rest"
    by (auto simp: and_then_Inr_iff)
  from Cons.IH [OF n(2)] n normalize_pred_confidence [OF n(1)] show ?case by simp
qed

section \<open>The greatest confidence among numeric predictions\<close>

text \<open>
  On prediction records with numeric confidences the pass of \<^verbatim>\<open>max\<close> never raises, and
  it returns the item at the first index of greatest confidence.
\<close>

lemma numeric_prediction_confidence:
  assumes "numeric_prediction p"
  shows "\<exists>c. confidence_of p = Inr c \<and> num_val c = Some (confidence_value p)"
  using assms
  by (auto simp: numeric_prediction_def confidence_value_def confidence_of_def
      split: pyval.splits option.splits)

lemma max_key_from_numeric:
  assumes "\<forall>x\<in>set xs. numeric_prediction x" and "num_val mval = Some m"
  shows "\<exists>b. max_key_from confidence_of mitem mval xs = Inr b \<and>
           ((b = mitem \<and> (\<forall>x\<in>set xs. confidence_value x \<le> m)) \<or>
            (\<exists>i<length xs. b = xs ! i \<and> m < confidence_value (xs ! i) \<and>
               (\<forall>j<i. confidence_value (xs ! j) < confidence_value (xs ! i)) \<and>
               (\<forall>j<length xs. confidence_value (xs ! j) \<le> confidence_value (xs ! i))))"
  using assms
proof (induction xs arbitrary: mitem mval m)
  case Nil
  then show ?case by simp
next
  case (Cons x xs)
  from Cons.prems obtain c where c: "confidence_of x = Inr c"
    "num_val c = Some (confidence_value x)"
    using numeric_prediction_confidence by fastforce
  let ?v = "confidence_value x"
  have rest: "\<forall>y\<in>set xs. numeric_prediction y" using Cons.prems by simp
  have cmp: "py_compare Gt c mval = Inr (m < ?v)"
    using py_compare_num [OF c(2) Cons.prems(2), of Gt] by simp
  show ?case
  proof (cases "m < ?v")
    case True
    from Cons.IH [OF rest c(2), of x] obtain b where
      b: "max_key_from confidence_of x c xs = Inr b"
      and alt: "(b = x \<and> (\<forall>y\<in>set xs. confidence_value y \<le> ?v)) \<or>
            (\<exists>i<length xs. b = xs ! i \<and> ?v < confidence_value (xs ! i) \<and>
               (\<forall>j<i. confidence_value (xs ! j) < confidence_value (xs ! i)) \<and>
               (\<forall>j<length xs. confidence_value (xs ! j) \<le> confidence_value (xs ! i)))"
      by blast
    have run: "max_key_from confidence_of mitem mval (x # xs) = Inr b"
      using True b c(1) cmp by (simp add: and_then_simps)
    from alt show ?thesis
    proof
      assume first: "b = x \<and> (\<forall>y\<in>set xs. confidence_value y \<le> ?v)"
      have "b = (x # xs) ! 0 \<and> m < confidence_value ((x # xs) ! 0) \<and>
            (\<forall>j<0. confidence_value ((x # xs) ! j) < confidence_value ((x # xs) ! 0)) \<and>
            (\<forall>j<length (x # xs). confidence_value ((x # xs) ! j) \<le> confidence_value ((x # xs) ! 0))"
        using first True by (auto simp: nth_Cons split: nat.splits)
      then show ?thesis using run by (intro exI [of _ b]) blast
    next
      assume "\<exists>i<length xs. b = xs ! i \<and> ?v < confidence_value (xs ! i) \<and>
               (\<forall>j<i. confidence_value (xs ! j) < confidence_value (xs ! i)) \<and>
               (\<forall>j<length xs. confidence_value (xs ! j) \<le> confidence_value (xs ! i))"
      then obtain i where i: "i < length xs" "b = xs ! i" "?v < confidence_value (xs ! i)"
        "\<forall>j<i. confidence_value (xs ! j) < confidence_value (xs ! i)"
        "\<forall>j<length xs. confidence_value (xs ! j) \<le> confidence_value (xs ! i)"
        by blast
      have "Suc i < length (x # xs) \<and> b = (x # xs) ! Suc i \<and>
            m < confidence_value ((x # xs) ! Suc i) \<and>
            (\<forall>j<Suc i. confidence_value ((x # xs) ! j) < confidence_value ((x # xs) ! Suc i)) \<and>
            (\<forall>j<length (x # xs). confidence_value ((x # xs) ! j) \<le> confidence_value ((x # xs) ! Suc i))"
        using i True by (auto simp: nth_Cons split: nat.splits)
      then show ?thesis using run by (intro exI [of _ b]) blast
    qed
  next
    case False
    from Cons.IH [OF rest Cons.prems(2), of mitem] obtain b where
      b: "max_key_from confidence_of mitem mval xs = Inr b"
      and alt: "(b = mitem \<and> (\<forall>y\<in>set xs. confidence_value y \<le> m)) \<or>
            (\<exists>i<length xs. b = xs ! i \<and> m < confidence_value (xs ! i) \<and>
               (\<forall>j<i. confidence_value (xs ! j) < confidence_value (xs ! i)) \<and>
               (\<forall>j<length xs. confidence_value (xs ! j) \<le> confidence_value (xs ! i)))"
      by blast
    have run: "max_key_from confidence_of mitem mval (x # xs) = Inr b"
      using False b c(1) cmp by (simp add: and_then_simps)
    from alt show ?thesis
    proof
      assume "b = mitem \<and> (\<forall>y\<in>set xs. confidence_value y \<le> m)"
      then show ?thesis using run False by auto
    next
      assume "\<exists>i<length xs. b = xs ! i \<and> m < confidence_value (xs ! i) \<and>
               (\<forall>j<i. confidence_value (xs ! j) < confidence_value (xs ! i)) \<and>
               (\<forall>j<length xs. confidence_value (xs ! j) \<le> confidence_value (xs ! i))"
      then obtain i where i: "i < length xs" "b = xs ! i" "m < confidence_value (xs ! i)"
        "\<forall>j<i. confidence_value (xs ! j) < confidence_value (xs ! i)"
        "\<forall>j<length xs. confidence_value (xs ! j) \<le> confidence_value (xs ! i)"
        by blast
      have "Suc i < length (x # xs) \<and> b = (x # xs) ! Suc i \<and>
            m < confidence_value ((x # xs) ! Suc i) \<and>
            (\<forall>j<Suc i. confidence_value ((x # xs) ! j) < confidence_value ((x # xs) ! Suc i)) \<and>
            (\<forall>j<length (x # xs). confidence_value ((x # xs) ! j) \<le> confidence_value ((x # xs) ! Suc i))"
        using i False by (auto simp: nth_Cons split: nat.splits)
      then show ?thesis using run by (intro exI [of _ b]) blast
    qed
  qed
qed

lemma py_max_key_first_maximum:
  assumes "\<forall>x\<in>set items. numeric_prediction x" and "items \<noteq> []"
  shows "\<exists>i<length items. py_max_key confidence_of items = Inr (items ! i) \<and>
           (\<forall>j<i. confidence_value (items ! j) < confidence_value (items ! i)) \<and>
           (\<forall>j<length items. confidence_value (items ! j) \<le> confidence_value (items ! i))"
proof -
  from assms obtain x xs where items: "items = x # xs" by (cases items) auto
  from assms items obtain c where c: "confidence_of x = Inr c"
    "num_val c = Some (confidence_value x)"
    using numeric_prediction_confidence by fastforce
  have rest: "\<forall>y\<in>set xs. numeric_prediction y" using assms items by simp
  from max_key_from_numeric [OF rest c(2), of x] obtain b where
    b: "max_key_from confidence_of x c xs = Inr b"
    and alt: "(b = x \<and> (\<forall>y\<in>set xs. confidence_value y \<le> confidence_value x)) \<or>
          (\<exists>i<length xs. b = xs ! i \<and> confidence_value x < confidence_value (xs ! i) \<and>
             (\<forall>j<i. confidence_value (xs ! j) < confidence_value (xs ! i)) \<and>
             (\<forall>j<length xs. confidence_value (xs ! j) \<le> confidence_value (xs ! i)))"
    by blast
  have run: "py_max_key confidence_of items = Inr b"
    using items b c(1) by (simp add: py_max_key_def and_then_simps)
  from alt show ?thesis
  proof
    assume "b = x \<and> (\<forall>y\<in>set xs. confidence_value y \<le> confidence_value x)"
    then have "0 < length items \<and> b = items ! 0 \<and>
        (\<forall>j<0. confidence_value (items ! j) < confidence_value (items ! 0)) \<and>
        (\<forall>j<length items. confidence_value (items ! j) \<le> confidence_value (items ! 0))"
      using items by (auto simp: nth_Cons split: nat.splits)
    then show ?thesis using run by blast
  next
    assume "\<exists>i<length xs. b = xs ! i \<and> confidence_value x < confidence_value (xs ! i) \<and>
             (\<forall>j<i. confidence_value (xs ! j) < confidence_value (xs ! i)) \<and>
             (\<forall>j<length xs. confidence_value (xs ! j) \<le> confidence_value (xs ! i))"
    then obtain i where i: "i < length xs" "b = xs ! i"
      "confidence_value x < confidence_value (xs ! i)"
      "\<forall>j<i. confidence_value (xs ! j) < confidence_value (xs ! i)"
      "\<forall>j<length xs. confidence_value (xs ! j) \<le> confidence_value (xs ! i)"
      by blast
    have "Suc i < length items \<and> b = items ! Suc i \<and>
        (\<forall>j<Suc i. confidence_value (items ! j) < confidence_value (items ! Suc i)) \<and>
        (\<forall>j<length items. confidence_value (items ! j) \<le> confidence_value (items ! Suc i))"
      using i items by (auto simp: nth_Cons split: nat.splits)
    then show ?thesis using run by blast
  qed
qed

section \<open>The handlers, case by case\<close>

text \<open>The way to the prediction list, on the shapes the specification names.\<close>

lemma find_predictions_raw:
  assumes "raw_predictions result = Some preds"
  shows "find_predictions result = Inr (if preds = [] then None else Some (PList preds))"
  using assms
  by (auto simp: raw_predictions_def find_predictions_def and_then_simps
      split: pyval.splits list.splits option.splits)

lemma find_predictions_none:
  "find_predictions result = Inr None \<longleftrightarrow> lacks_predictions result"
proof (cases result)
  case (PList xs)
  show ?thesis
  proof (cases xs)
    case Nil
    with PList show ?thesis by (simp add: find_predictions_def lacks_predictions_def)
  next
    case (Cons out rest)
    show ?thesis
    proof (cases out)
      case (PDict kvs)
      show ?thesis
      proof (cases "map_of kvs ''output2''")
        case None
        with PList Cons PDict show ?thesis
          by (simp add: find_predictions_def lacks_predictions_def key_missing_def and_then_simps)
      next
        case (Some o2)
        with PList Cons PDict show ?thesis
          by (cases o2)
            (auto simp: find_predictions_def lacks_predictions_def key_missing_def and_then_simps
              split: option.splits)
      qed
    qed (use PList Cons in
        \<open>auto simp: find_predictions_def lacks_predictions_def key_missing_def and_then_simps\<close>)
  qed
qed (simp_all add: find_predictions_def lacks_predictions_def)

lemma find_predictions_unreadable:
  "find_predictions result = Inl e \<longleftrightarrow> unreadable_result result \<and> e = TypeError"
proof (cases result)
  case (PList xs)
  show ?thesis
  proof (cases xs)
    case Nil
    with PList show ?thesis by (simp add: find_predictions_def unreadable_result_def)
  next
    case (Cons out rest)
    show ?thesis
    proof (cases out)
      case (PDict kvs)
      show ?thesis
      proof (cases "map_of kvs ''output2''")
        case None
        with PList Cons PDict show ?thesis
          by (simp add: find_predictions_def unreadable_result_def key_unreadable_def
              and_then_simps)
      next
        case (Some o2)
        with PList Cons PDict show ?thesis
          by (cases o2)
            (auto simp: find_predictions_def unreadable_result_def key_unreadable_def
              and_then_simps split: option.splits)
      qed
    qed (use PList Cons in
        \<open>auto simp: find_predictions_def unreadable_result_def key_unreadable_def
           and_then_simps\<close>)
  qed
qed (simp_all add: find_predictions_def unreadable_result_def)

lemma find_predictions_some:
  "(\<exists>p. find_predictions result = Inr (Some p)) \<longleftrightarrow> truthy_predictions result"
proof (cases result)
  case (PList xs)
  show ?thesis
  proof (cases xs)
    case Nil
    with PList show ?thesis by (simp add: find_predictions_def truthy_predictions_def)
  next
    case (Cons out rest)
    show ?thesis
    proof (cases out)
      case (PDict kvs)
      show ?thesis
      proof (cases "map_of kvs ''output2''")
        case None
        with PList Cons PDict show ?thesis
          by (simp add: find_predictions_def truthy_predictions_def and_then_simps)
      next
        case (Some o2)
        with PList Cons PDict show ?thesis
          by (cases o2)
            (auto simp: find_predictions_def truthy_predictions_def and_then_simps
              split: option.splits)
      qed
    qed (use PList Cons in
        \<open>auto simp: find_predictions_def truthy_predictions_def and_then_simps\<close>)
  qed
qed (simp_all add: find_predictions_def truthy_predictions_def)

lemma result_trichotomy:
  "lacks_predictions result \<or> unreadable_result result \<or> truthy_predictions result"
proof (cases "find_predictions result")
  case (Inl e)
  then show ?thesis using find_predictions_unreadable by blast
next
  case (Inr found)
  then show ?thesis
    using find_predictions_none [of result] find_predictions_some [of result]
    by (cases found) auto
qed

lemma validate_image_decided:
  assumes "workflow_returns E result"
    and "validate_decide result = Inr (confidence, detected_issue, allow_upload)"
  shows "validate_image E =
           (PDict [(''success'', PBool True),
                   (''confidence'', confidence),
                   (''modelConfidence'', confidence),
                   (''allowUpload'', PBool allow_upload),
                   (''message'', PStr (message_of E detected_issue)),
                   (''detectedIssue'', detected_issue)], 200)"
  using assms by (simp add: validate_image_def validate_try_returns and_then_simps)

lemma analyze_image_extracted:
  assumes "workflow_returns E result"
    and "analyze_extract result = Inr (predictions, confidence)"
  shows "analyze_image E =
           (PDict [(''success'', PBool True),
                   (''predictions'', PList predictions),
                   (''confidence'', confidence),
                   (''raw_result'', result)], 200)"
  using assms by (simp add: analyze_image_def analyze_try_returns and_then_simps)

lemma validate_decide_numeric:
  assumes "raw_predictions result = Some preds" and "preds \<noteq> []"
    and "\<forall>p\<in>set preds. numeric_prediction p"
  shows "\<exists>i<length preds. \<exists>c d.
           confidence_of (preds ! i) = Inr c \<and> label_of (preds ! i) = Inr d \<and>
           validate_decide result = Inr (c, d, threshold \<le> confidence_value (preds ! i)) \<and>
           (\<forall>j<i. confidence_value (preds ! j) < confidence_value (preds ! i)) \<and>
           (\<forall>j<length preds. confidence_value (preds ! j) \<le> confidence_value (preds ! i))"
proof -
  from py_max_key_first_maximum [OF assms(3) assms(2)] obtain i where
    i: "i < length preds" "py_max_key confidence_of preds = Inr (preds ! i)"
    "\<forall>j<i. confidence_value (preds ! j) < confidence_value (preds ! i)"
    "\<forall>j<length preds. confidence_value (preds ! j) \<le> confidence_value (preds ! i)"
    by blast
  have num: "numeric_prediction (preds ! i)" using assms(3) i(1) by simp
  then obtain c where c: "confidence_of (preds ! i) = Inr c"
    "num_val c = Some (confidence_value (preds ! i))"
    using numeric_prediction_confidence by blast
  from num obtain kvs where "preds ! i = PDict kvs"
    by (auto simp: numeric_prediction_def split: pyval.splits)
  then obtain d where d: "label_of (preds ! i) = Inr d"
    using label_of_Inr by blast
  have sel: "validate_select (PList preds) = Inr (c, d)"
    using i(2) c(1) d by (simp add: validate_select_def and_then_simps)
  have cmp: "py_compare Ge c (PFloat threshold) = Inr (threshold \<le> confidence_value (preds ! i))"
    using py_compare_num [OF c(2), of "PFloat threshold" threshold Ge] by simp
  have "validate_decide result = Inr (c, d, threshold \<le> confidence_value (preds ! i))"
    using find_predictions_raw [OF assms(1)] assms(2) sel cmp
    by (simp add: validate_decide_def and_then_simps)
  with i c(1) d show ?thesis by blast
qed

text \<open>The exits of the handlers: what a response that was returned tells.\<close>

lemma validate_try_Inr:
  assumes "validate_try E = Inr r"
  shows "r = (PDict [(''success'', PBool False),
                     (''error'', PStr ''No image source provided'')], 400) \<or>
         (\<exists>result c d a. workflow_returns E result \<and> validate_decide result = Inr (c, d, a) \<and>
            r = (PDict [(''success'', PBool True),
                        (''confidence'', c),
                        (''modelConfidence'', c),
                        (''allowUpload'', PBool a),
                        (''message'', PStr (message_of E d)),
                        (''detectedIssue'', d)], 200))"
proof -
  from assms obtain data src where data: "request_json E = Inr data"
    and src: "image_source data = Inr src"
    and rest: "(if \<not> truthy src then
         Inr (PDict [(''success'', PBool False),
                     (''error'', PStr ''No image source provided'')], 400)
       else and_then (run_workflow E src) (\<lambda>result.
         and_then (validate_decide result) (\<lambda>(confidence, detected_issue, allow_upload).
           Inr (PDict [(''success'', PBool True),
                       (''confidence'', confidence),
                       (''modelConfidence'', confidence),
                       (''allowUpload'', PBool allow_upload),
                       (''message'', PStr (message_of E detected_issue)),
                       (''detectedIssue'', detected_issue)], 200)))) = Inr r"
    unfolding validate_try_def and_then_Inr_iff by blast
  show ?thesis
  proof (cases "truthy src")
    case False
    with rest show ?thesis by simp
  next
    case True
    with rest obtain result t where result: "run_workflow E src = Inr result"
      and t: "validate_decide result = Inr t"
      and r: "(case t of (confidence, detected_issue, allow_upload) \<Rightarrow>
           Inr (PDict [(''success'', PBool True),
                       (''confidence'', confidence),
                       (''modelConfidence'', confidence),
                       (''allowUpload'', PBool allow_upload),
                       (''message'', PStr (message_of E detected_issue)),
                       (''detectedIssue'', detected_issue)], 200)) = Inr r"
      by (auto simp: and_then_Inr_iff)
    obtain c d a where cda: "t = (c, d, a)" by (cases t) auto
    have "workflow_returns E result"
      using data src True result by (simp add: workflow_returns_def)
    with t r cda show ?thesis by auto
  qed
qed

lemma validate_image_cases:
  "(\<exists>e. validate_try E = Inl e \<and>
        validate_image E =
          (PDict [(''success'', PBool False),
                  (''error'', PStr (str_exn E e)),
                  (''confidence'', PInt 0),
                  (''allowUpload'', PBool False)], 500)) \<or>
   validate_image E =
     (PDict [(''success'', PBool False), (''error'', PStr ''No image source provided'')], 400) \<or>
   (\<exists>result c d a. workflow_returns E result \<and> validate_decide result = Inr (c, d, a) \<and>
      validate_image E =
        (PDict [(''success'', PBool True),
                (''confidence'', c),
                (''modelConfidence'', c),
                (''allowUpload'', PBool a),
                (''message'', PStr (message_of E d)),
                (''detectedIssue'', d)], 200))"
proof (cases "validate_try E")
  case (Inl e)
  then show ?thesis by (simp add: validate_image_def)
next
  case (Inr r)
  then have "validate_image E = r" by (simp add: validate_image_def)
  with validate_try_Inr [OF Inr] show ?thesis by auto
qed

lemma validate_decide_allows:
  assumes "validate_decide result = Inr (c, d, True)"
  shows "\<exists>r. num_val c = Some r \<and> threshold \<le> r"
proof -
  from assms obtain found where found: "find_predictions result = Inr found"
    and rest: "(case found of
         None \<Rightarrow> Inr (PInt 0, PNone, False)
       | Some predictions \<Rightarrow>
           and_then (validate_select predictions) (\<lambda>(confidence, detected_issue).
           and_then (py_compare Ge confidence (PFloat threshold)) (\<lambda>allow_upload.
             Inr (confidence, detected_issue, allow_upload)))) = Inr (c, d, True)"
    unfolding validate_decide_def and_then_Inr_iff by blast
  show ?thesis
  proof (cases found)
    case None
    with rest show ?thesis by simp
  next
    case (Some predictions)
    with rest have "py_compare Ge c (PFloat threshold) = Inr True"
      by (auto simp: and_then_Inr_iff)
    then have "\<exists>r. num_val c = Some r \<and> True = cmp_holds Ge r threshold"
      by (rule iffD1 [OF py_compare_float])
    then show ?thesis by simp
  qed
qed

lemma analyze_try_Inr:
  assumes "analyze_try E = Inr r"
  shows "r = (PDict [(''success'', PBool False), (''error'', PStr ''No data provided'')], 400) \<or>
         r = (PDict [(''success'', PBool False),
                     (''error'', PStr ''No image source provided'')], 400) \<or>
         (\<exists>result ps c. workflow_returns E result \<and> analyze_extract result = Inr (ps, c) \<and>
            r = (PDict [(''success'', PBool True),
                        (''predictions'', PList ps),
                        (''confidence'', c),
                        (''raw_result'', result)], 200))"
proof -
  from assms obtain data where data: "request_json E = Inr data"
    and rest: "(if \<not> truthy data then
         Inr (PDict [(''success'', PBool False), (''error'', PStr ''No data provided'')], 400)
       else and_then (image_source data) (\<lambda>src.
         if \<not> truthy src then
           Inr (PDict [(''success'', PBool False),
                       (''error'', PStr ''No image source provided'')], 400)
         else and_then (run_workflow E src) (\<lambda>result.
           and_then (analyze_extract result) (\<lambda>(predictions, confidence).
             Inr (PDict [(''success'', PBool True),
                         (''predictions'', PList predictions),
                         (''confidence'', confidence),
                         (''raw_result'', result)], 200))))) = Inr r"
    unfolding analyze_try_def and_then_Inr_iff by blast
  show ?thesis
  proof (cases "truthy data")
    case False
    with rest show ?thesis by simp
  next
    case True
    with rest obtain src where src: "image_source data = Inr src"
      and rest2: "(if \<not> truthy src then
           Inr (PDict [(''success'', PBool False),
                       (''error'', PStr ''No image source provided'')], 400)
         else and_then (run_workflow E src) (\<lambda>result.
           and_then (analyze_extract result) (\<lambda>(predictions, confidence).
             Inr (PDict [(''success'', PBool True),
                         (''predictions'', PList predictions),
                         (''confidence'', confidence),
                         (''raw_result'', result)], 200)))) = Inr r"
      by (auto simp: and_then_Inr_iff)
    show ?thesis
    proof (cases "truthy src")
      case False
      with rest2 show ?thesis by simp
    next
      case src_ok: True
      with rest2 obtain result t where result: "run_workflow E src = Inr result"
        and t: "analyze_extract result = Inr t"
        and r: "(case t of (predictions, confidence) \<Rightarrow>
             Inr (PDict [(''success'', PBool True),
                         (''predictions'', PList predictions),
                         (''confidence'', confidence),
                         (''raw_result'', result)], 200)) = Inr r"
        by (auto simp: and_then_Inr_iff)
      obtain ps c where pc: "t = (ps, c)" by (cases t) auto
      have "workflow_returns E result"
        using data src src_ok result by (simp add: workflow_returns_def)
      with t r pc show ?thesis by auto
    qed
  qed
qed

lemma analyze_image_200:
  assumes "status (analyze_image E) = 200"
  shows "\<exists>result ps c. workflow_returns E result \<and> analyze_extract result = Inr (ps, c) \<and>
           analyze_image E =
             (PDict [(''success'', PBool True),
                     (''predictions'', PList ps),
                     (''confidence'', c),
                     (''raw_result'', result)], 200)"
proof (cases "analyze_try E")
  case (Inl e)
  with assms show ?thesis by (simp add: analyze_image_def status_def)
next
  case (Inr r)
  then have "analyze_image E = r" by (simp add: analyze_image_def)
  with analyze_try_Inr [OF Inr] assms show ?thesis by (auto simp: status_def)
qed

lemma validate_image_200:
  assumes "status (validate_image E) = 200"
  shows "\<exists>result c d a. workflow_returns E result \<and> validate_decide result = Inr (c, d, a) \<and>
           validate_image E =
             (PDict [(''success'', PBool True),
                     (''confidence'', c),
                     (''modelConfidence'', c),
                     (''allowUpload'', PBool a),
                     (''message'', PStr (message_of E d)),
                     (''detectedIssue'', d)], 200)"
  using validate_image_cases [of E] assms by (auto simp: status_def)

lemma workflow_returns_unique:
  "workflow_returns E r1 \<Longrightarrow> workflow_returns E r2 \<Longrightarrow> r1 = r2"
  by (auto simp: workflow_returns_def split: sum.splits)

lemma analyze_extract_Inr:
  assumes "analyze_extract result = Inr (ps, c)"
  shows "(find_predictions result = Inr None \<and> ps = [] \<and> c = PInt 0) \<or>
         (\<exists>mp items cs. find_predictions result = Inr (Some mp) \<and> py_iter mp = Inr items \<and>
            map_exn normalize_pred items = Inr ps \<and> map_exn confidence_of items = Inr cs \<and>
            py_max cs = Inr c)"
proof -
  from assms obtain found where found: "find_predictions result = Inr found"
    and rest: "(case found of
         None \<Rightarrow> Inr ([], PInt 0)
       | Some model_predictions \<Rightarrow>
           and_then (py_iter model_predictions) (\<lambda>items.
           and_then (map_exn normalize_pred items) (\<lambda>predictions.
           and_then (map_exn confidence_of items) (\<lambda>confidences.
           and_then (py_max confidences) (\<lambda>confidence.
             Inr (predictions, confidence)))))) = Inr (ps, c)"
    unfolding analyze_extract_def and_then_Inr_iff by blast
  show ?thesis
  proof (cases found)
    case None
    with found rest show ?thesis by simp
  next
    case (Some mp)
    with found rest show ?thesis by (auto simp: and_then_Inr_iff)
  qed
qed

lemma validate_decide_Inr:
  assumes "validate_decide result = Inr (c, d, a)"
  shows "(find_predictions result = Inr None \<and> c = PInt 0 \<and> d = PNone \<and> \<not> a) \<or>
         (\<exists>mp items b. find_predictions result = Inr (Some mp) \<and> py_iter mp = Inr items \<and>
            py_max_key confidence_of items = Inr b \<and> confidence_of b = Inr c \<and>
            label_of b = Inr d \<and> py_compare Ge c (PFloat threshold) = Inr a)"
proof -
  from assms obtain found where found: "find_predictions result = Inr found"
    and rest: "(case found of
         None \<Rightarrow> Inr (PInt 0, PNone, False)
       | Some predictions \<Rightarrow>
           and_then (validate_select predictions) (\<lambda>(confidence, detected_issue).
           and_then (py_compare Ge confidence (PFloat threshold)) (\<lambda>allow_upload.
             Inr (confidence, detected_issue, allow_upload)))) = Inr (c, d, a)"
    unfolding validate_decide_def and_then_Inr_iff by blast
  show ?thesis
  proof (cases found)
    case None
    with found rest show ?thesis by simp
  next
    case (Some mp)
    with rest obtain t where t: "validate_select mp = Inr t"
      and cmp: "(case t of (confidence, detected_issue) \<Rightarrow>
           and_then (py_compare Ge confidence (PFloat threshold)) (\<lambda>allow_upload.
             Inr (confidence, detected_issue, allow_upload))) = Inr (c, d, a)"
      by (auto simp: and_then_Inr_iff)
    obtain c' d' where cd: "t = (c', d')" by (cases t) auto
    from cmp cd have eq: "c' = c" "d' = d" and ge: "py_compare Ge c (PFloat threshold) = Inr a"
      by (auto simp: and_then_Inr_iff)
    from t cd eq obtain items b where "py_iter mp = Inr items"
      "py_max_key confidence_of items = Inr b" "confidence_of b = Inr c" "label_of b = Inr d"
      by (auto simp: validate_select_def and_then_Inr_iff)
    with found Some ge show ?thesis by blast
  qed
qed

text \<open>The two extractions of the confidence, from the same raw result.\<close>

lemma select_gives_extract:
  assumes "find_predictions result = Inr (Some mp)" and "validate_select mp = Inr (c, d)"
  shows "\<exists>ps. analyze_extract result = Inr (ps, c)"
proof -
  from assms(2) obtain items b where items: "py_iter mp = Inr items"
    and b: "py_max_key confidence_of items = Inr b" "confidence_of b = Inr c"
    by (auto simp: validate_select_def and_then_Inr_iff)
  from b have "and_then (py_max_key confidence_of items) confidence_of = Inr c"
    by (simp add: and_then_simps)
  then have "and_then (map_exn confidence_of items) py_max = Inr c"
    by (simp only: py_max_key_agrees)
  then obtain cs where cs: "map_exn confidence_of items = Inr cs" "py_max cs = Inr c"
    by (auto simp: and_then_Inr_iff)
  from cs(1) have "\<forall>x\<in>set items. \<exists>y. confidence_of x = Inr y"
    using map_exn_all [of confidence_of items] by blast
  then have "\<forall>x\<in>set items. \<exists>y. normalize_pred x = Inr y"
    using confidence_of_Inr normalize_pred_Inr by blast
  then obtain ps where ps: "map_exn normalize_pred items = Inr ps"
    using map_exn_all [of normalize_pred items] by blast
  show ?thesis
    using assms(1) items ps cs by (simp add: analyze_extract_def and_then_simps)
qed

lemma extract_gives_select:
  assumes "find_predictions result = Inr (Some mp)" and "analyze_extract result = Inr (ps, c)"
  shows "\<exists>d. validate_select mp = Inr (c, d)"
proof -
  from analyze_extract_Inr [OF assms(2)] assms(1) obtain items cs where
    items: "py_iter mp = Inr items"
    and cs: "map_exn confidence_of items = Inr cs" "py_max cs = Inr c"
    by auto
  from cs have "and_then (map_exn confidence_of items) py_max = Inr c"
    by (simp add: and_then_simps)
  then have "and_then (py_max_key confidence_of items) confidence_of = Inr c"
    by (simp only: py_max_key_agrees)
  then obtain b where b: "py_max_key confidence_of items = Inr b" "confidence_of b = Inr c"
    by (auto simp: and_then_Inr_iff)
  from b(2) obtain d where d: "label_of b = Inr d"
    using confidence_of_Inr label_of_Inr by blast
  have "validate_select mp = Inr (c, d)"
    using items b d by (simp add: validate_select_def and_then_simps)
  then show ?thesis by blast
qed

lemma validate_decide_gives_analyze:
  assumes "validate_decide result = Inr (c, d, a)"
  shows "\<exists>ps. analyze_extract result = Inr (ps, c)"
proof -
  from assms obtain found where found: "find_predictions result = Inr found"
    by (auto simp: validate_decide_def and_then_Inr_iff)
  show ?thesis
  proof (cases found)
    case None
    with assms found have "c = PInt 0"
      by (simp add: validate_decide_def and_then_simps)
    with None found show ?thesis by (simp add: analyze_extract_def and_then_simps)
  next
    case (Some mp)
    with assms found have "validate_select mp = Inr (c, d)"
      by (auto simp: validate_decide_def and_then_Inr_iff and_then_simps)
    with found Some show ?thesis using select_gives_extract by blast
  qed
qed

lemma analyze_extract_gives_validate:
  assumes "analyze_extract result = Inr (ps, c)" and "num_val c = Some r"
  shows "\<exists>d a. validate_decide result = Inr (c, d, a)"
proof -
  from assms(1) obtain found where found: "find_predictions result = Inr found"
    by (auto simp: analyze_extract_def and_then_Inr_iff)
  show ?thesis
  proof (cases found)
    case None
    with assms(1) found have "validate_decide result = Inr (c, PNone, False)"
      by (simp add: analyze_extract_def validate_decide_def and_then_simps)
    then show ?thesis by blast
  next
    case (Some mp)
    with found assms(1) obtain d where sel: "validate_select mp = Inr (c, d)"
      using extract_gives_select by blast
    have "py_compare Ge c (PFloat threshold) = Inr (threshold \<le> r)"
      using py_compare_num [OF assms(2), of "PFloat threshold" threshold Ge] by simp
    with found Some sel show ?thesis by (simp add: validate_decide_def and_then_simps)
  qed
qed

text \<open>Python's \<^verbatim>\<open>max\<close> of numeric confidences is their greatest value.\<close>

lemma greatest_is_Max:
  fixes f :: "'a \<Rightarrow> rat"
  assumes "i < length xs" and "\<forall>j<length xs. f (xs ! j) \<le> f (xs ! i)"
  shows "Max (f ` set xs) = f (xs ! i)"
proof (rule Max_eqI)
  show "finite (f ` set xs)" by simp
  show "f (xs ! i) \<in> f ` set xs" using assms(1) by simp
  fix v assume "v \<in> f ` set xs"
  then obtain j where "j < length xs" "v = f (xs ! j)"
    by (auto simp: in_set_conv_nth)
  with assms(2) show "v \<le> f (xs ! i)" by simp
qed

lemma py_max_Inr_nonempty: "py_max cs = Inr c \<Longrightarrow> cs \<noteq> []"
  by (auto simp: py_max_def)

lemma python_max_is_Max:
  assumes "and_then (map_exn confidence_of ps) py_max = Inr c"
    and "ps \<noteq> []" and "\<forall>p\<in>set ps. numeric_prediction p"
  shows "num_val c = Some (Max (confidence_value ` set ps))"
proof -
  from py_max_key_first_maximum [OF assms(3,2)] obtain i where
    i: "i < length ps" "py_max_key confidence_of ps = Inr (ps ! i)"
    "\<forall>j<length ps. confidence_value (ps ! j) \<le> confidence_value (ps ! i)"
    by blast
  from assms(1) have "and_then (py_max_key confidence_of ps) confidence_of = Inr c"
    by (simp only: py_max_key_agrees)
  with i(2) have c: "confidence_of (ps ! i) = Inr c" by (simp add: and_then_simps)
  have "numeric_prediction (ps ! i)" using assms(3) i(1) by simp
  from numeric_prediction_confidence [OF this] c
  have "num_val c = Some (confidence_value (ps ! i))" by simp
  with greatest_is_Max [OF i(1) i(3)] show ?thesis by simp
qed

text \<open>The definitions that the evaluation of an example unfolds.\<close>

lemmas example_defs =
  example_env_def image_request_def raw_result_def workflow_returns_def raw_predictions_def
  numeric_prediction_def confidence_value_def image_source_def confidence_of_def
  and_then_simps field_def status_def threshold_def

lemmas shape_defs =
  lacks_predictions_def unreadable_result_def key_missing_def key_unreadable_def

section \<open>The examples of the specification\<close>

text \<open>
  The raw result \<^verbatim>\<open>[{"output2":{"predictions":[{"class":"pothole","confidence":0.82}]}}]\<close>
  (0.82 as the double it is read as) and the raw result
  \<^verbatim>\<open>[{"output2":{"predictions":[]}}]\<close>, sent through /validate.
\<close>

lemma validate_pothole_example:
  "validate_image (example_env image_request (Inr (raw_result
       [PDict [(''class'', PStr ''pothole''),
               (''confidence'', PFloat (7385903388887613 / 9007199254740992))]]))) =
     (PDict [(''success'', PBool True),
             (''confidence'', PFloat (7385903388887613 / 9007199254740992)),
             (''modelConfidence'', PFloat (7385903388887613 / 9007199254740992)),
             (''allowUpload'', PBool True),
             (''message'', PStr ''Detected Issue: pothole''),
             (''detectedIssue'', PStr ''pothole'')], 200)"
  by (simp add: example_defs validate_image_def validate_try_def validate_decide_def
      find_predictions_def validate_select_def py_max_key_def label_of_def message_of_def
      py_format_def)

lemma validate_no_predictions_example:
  "validate_image (example_env image_request (Inr (raw_result []))) =
     (PDict [(''success'', PBool True),
             (''confidence'', PInt 0),
             (''modelConfidence'', PInt 0),
             (''allowUpload'', PBool False),
             (''message'', PStr ''No civic issue detected''),
             (''detectedIssue'', PNone)], 200)"
  by (simp add: example_defs validate_image_def validate_try_def validate_decide_def
      find_predictions_def message_of_def)

text \<open>
  A request for which \<^verbatim>\<open>get_json()\<close> returns \<^verbatim>\<open>None\<close> (a body that is JSON \<^verbatim>\<open>null\<close>):
  /analyze has a guard for it, /validate calls \<^verbatim>\<open>None.get\<close> and answers through its
  \<^verbatim>\<open>except\<close> branch.
\<close>

lemma null_body_example:
  "analyze_image (example_env (Inr PNone) (Inr PNone)) =
     (PDict [(''success'', PBool False), (''error'', PStr ''No data provided'')], 400) \<and>
   validate_image (example_env (Inr PNone) (Inr PNone)) =
     (PDict [(''success'', PBool False),
             (''error'', PStr (example_str_exn AttributeError)),
             (''confidence'', PInt 0),
             (''allowUpload'', PBool False)], 500)"
  by (simp add: example_env_def analyze_image_def analyze_try_def validate_image_def
      validate_try_def image_source_def and_then_simps)

section \<open>The claims\<close>

text \<open>
  C1. For a raw result of the documented shape whose prediction list is not empty and
  holds prediction records with numeric confidences, /validate answers 200 and
  \<^verbatim>\<open>allowUpload\<close> is true if and only if the maximum confidence of the list is at least
  the threshold 0.7. The witness is the boundary: a maximum of exactly 0.7 gives true,
  the maximum 0.69999 (the double of that literal) gives false.
\<close>

theorem validate_allow_upload_threshold:
  assumes "workflow_returns E result"
    and "raw_predictions result = Some preds"
    and "preds \<noteq> []"
    and "\<forall>p\<in>set preds. numeric_prediction p"
  shows "status (validate_image E) = 200 \<and>
         field (validate_image E) ''allowUpload'' =
           Some (PBool (threshold \<le> Max (confidence_value ` set preds)))"
proof -
  from validate_decide_numeric [OF assms(2,3,4)] obtain i c d where
    i: "i < length preds"
    and run: "validate_decide result = Inr (c, d, threshold \<le> confidence_value (preds ! i))"
    and top: "\<forall>j<length preds. confidence_value (preds ! j) \<le> confidence_value (preds ! i)"
    by blast
  have "Max (confidence_value ` set preds) = confidence_value (preds ! i)"
    using i top by (rule greatest_is_Max)
  with validate_image_decided [OF assms(1) run] show ?thesis
    by (simp add: field_def status_def)
qed

theorem validate_allow_upload_threshold_witness:
  "workflow_returns
     (example_env image_request (Inr (raw_result [PDict [(''confidence'', PFloat threshold)]])))
     (raw_result [PDict [(''confidence'', PFloat threshold)]]) \<and>
   field (validate_image
     (example_env image_request (Inr (raw_result [PDict [(''confidence'', PFloat threshold)]]))))
     ''allowUpload'' = Some (PBool True) \<and>
   field (validate_image
     (example_env image_request (Inr (raw_result
        [PDict [(''confidence'', PFloat (6304949406326147 / 9007199254740992))]]))))
     ''allowUpload'' = Some (PBool False)"
  using validate_allow_upload_threshold
      [of "example_env image_request (Inr (raw_result [PDict [(''confidence'', PFloat threshold)]]))"
          "raw_result [PDict [(''confidence'', PFloat threshold)]]"
          "[PDict [(''confidence'', PFloat threshold)]]"]
    validate_allow_upload_threshold
      [of "example_env image_request (Inr (raw_result
             [PDict [(''confidence'', PFloat (6304949406326147 / 9007199254740992))]]))"
          "raw_result [PDict [(''confidence'', PFloat (6304949406326147 / 9007199254740992))]]"
          "[PDict [(''confidence'', PFloat (6304949406326147 / 9007199254740992))]]"]
  by (simp add: example_defs)

text \<open>
  C2 (amended). For every raw result in which the handlers find no prediction list
  without raising (it is absent, empty or not a list; or its first bundle is an object,
  a list or a string that does not hold \<^verbatim>\<open>output2\<close>; or \<^verbatim>\<open>output2\<close> is an object, a list
  or a string that does not hold \<^verbatim>\<open>predictions\<close>; or the value of \<^verbatim>\<open>predictions\<close> is
  falsy), /analyze answers 200 with an empty prediction list and confidence 0, and
  /validate answers 200 with confidence 0 and \<^verbatim>\<open>allowUpload\<close> false. For every raw
  result on which the lookup raises (the first bundle or \<^verbatim>\<open>output2\<close> is null, a boolean
  or a number, or a list or a string that contains the key) both handlers answer 500
  through their \<^verbatim>\<open>except\<close> branch, /validate with confidence 0 and \<^verbatim>\<open>allowUpload\<close>
  false, /analyze with neither a prediction list nor a confidence. Every other raw
  result holds a truthy value of \<^verbatim>\<open>predictions\<close>. The claim as stated covers every
  malformed result; the counterexample is a first bundle whose \<^verbatim>\<open>output2\<close> is null,
  where \<^verbatim>\<open>'predictions' in None\<close> raises.
\<close>

theorem missing_predictions_give_empty_detection:
  assumes "workflow_returns E result"
  shows "(lacks_predictions result \<longrightarrow>
            analyze_image E =
              (PDict [(''success'', PBool True),
                      (''predictions'', PList []),
                      (''confidence'', PInt 0),
                      (''raw_result'', result)], 200) \<and>
            validate_image E =
              (PDict [(''success'', PBool True),
                      (''confidence'', PInt 0),
                      (''modelConfidence'', PInt 0),
                      (''allowUpload'', PBool False),
                      (''message'', PStr ''No civic issue detected''),
                      (''detectedIssue'', PNone)], 200)) \<and>
         (unreadable_result result \<longrightarrow>
            analyze_image E =
              (PDict [(''success'', PBool False),
                      (''error'', PStr (str_exn E TypeError))], 500) \<and>
            validate_image E =
              (PDict [(''success'', PBool False),
                      (''error'', PStr (str_exn E TypeError)),
                      (''confidence'', PInt 0),
                      (''allowUpload'', PBool False)], 500)) \<and>
         (lacks_predictions result \<or> unreadable_result result \<or> truthy_predictions result)"
proof (intro conjI impI)
  assume "lacks_predictions result"
  then have found: "find_predictions result = Inr None"
    by (simp add: find_predictions_none)
  have "analyze_extract result = Inr ([], PInt 0)"
    using found by (simp add: analyze_extract_def and_then_simps)
  from analyze_image_extracted [OF assms this]
  show "analyze_image E =
           (PDict [(''success'', PBool True),
                   (''predictions'', PList []),
                   (''confidence'', PInt 0),
                   (''raw_result'', result)], 200)" .
  have "validate_decide result = Inr (PInt 0, PNone, False)"
    using found by (simp add: validate_decide_def and_then_simps)
  from validate_image_decided [OF assms this]
  show "validate_image E =
              (PDict [(''success'', PBool True),
                      (''confidence'', PInt 0),
                      (''modelConfidence'', PInt 0),
                      (''allowUpload'', PBool False),
                      (''message'', PStr ''No civic issue detected''),
                      (''detectedIssue'', PNone)], 200)"
    by (simp add: message_of_def)
next
  assume "unreadable_result result"
  then have found: "find_predictions result = Inl TypeError"
    by (simp add: find_predictions_unreadable)
  have "analyze_extract result = Inl TypeError"
    using found by (simp add: analyze_extract_def and_then_simps)
  then show "analyze_image E =
              (PDict [(''success'', PBool False),
                      (''error'', PStr (str_exn E TypeError))], 500)"
    by (simp add: analyze_image_def analyze_try_returns [OF assms] and_then_simps)
  have "validate_decide result = Inl TypeError"
    using found by (simp add: validate_decide_def and_then_simps)
  then show "validate_image E =
              (PDict [(''success'', PBool False),
                      (''error'', PStr (str_exn E TypeError)),
                      (''confidence'', PInt 0),
                      (''allowUpload'', PBool False)], 500)"
    by (simp add: validate_image_def validate_try_returns [OF assms] and_then_simps)
next
  show "lacks_predictions result \<or> unreadable_result result \<or> truthy_predictions result"
    by (rule result_trichotomy)
qed

theorem missing_predictions_give_empty_detection_witness:
  "lacks_predictions (PList [PDict [(''output1'', PInt 3)]]) \<and>
   analyze_image (example_env image_request (Inr (PList [PDict [(''output1'', PInt 3)]]))) =
     (PDict [(''success'', PBool True),
             (''predictions'', PList []),
             (''confidence'', PInt 0),
             (''raw_result'', PList [PDict [(''output1'', PInt 3)]])], 200) \<and>
   validate_image (example_env image_request (Inr (PList [PDict [(''output1'', PInt 3)]]))) =
     (PDict [(''success'', PBool True),
             (''confidence'', PInt 0),
             (''modelConfidence'', PInt 0),
             (''allowUpload'', PBool False),
             (''message'', PStr ''No civic issue detected''),
             (''detectedIssue'', PNone)], 200) \<and>
   lacks_predictions (PList [PDict [(''output2'', PStr ''x'')]]) \<and>
   validate_image (example_env image_request (Inr (PList [PDict [(''output2'', PStr ''x'')]]))) =
     (PDict [(''success'', PBool True),
             (''confidence'', PInt 0),
             (''modelConfidence'', PInt 0),
             (''allowUpload'', PBool False),
             (''message'', PStr ''No civic issue detected''),
             (''detectedIssue'', PNone)], 200) \<and>
   unreadable_result (PList [PDict [(''output2'', PBool True)]]) \<and>
   analyze_image (example_env image_request (Inr (PList [PDict [(''output2'', PBool True)]]))) =
     (PDict [(''success'', PBool False),
             (''error'', PStr (example_str_exn TypeError))], 500) \<and>
   validate_image (example_env image_request (Inr (PList [PDict [(''output2'', PBool True)]]))) =
     (PDict [(''success'', PBool False),
             (''error'', PStr (example_str_exn TypeError)),
             (''confidence'', PInt 0),
             (''allowUpload'', PBool False)], 500)"
  using missing_predictions_give_empty_detection
      [of "example_env image_request (Inr (PList [PDict [(''output1'', PInt 3)]]))"
               "PList [PDict [(''output1'', PInt 3)]]"]
    missing_predictions_give_empty_detection
      [of "example_env image_request (Inr (PList [PDict [(''output2'', PStr ''x'')]]))"
           "PList [PDict [(''output2'', PStr ''x'')]]"]
    missing_predictions_give_empty_detection
      [of "example_env image_request (Inr (PList [PDict [(''output2'', PBool True)]]))"
           "PList [PDict [(''output2'', PBool True)]]"]
  by (simp add: example_defs shape_defs)

theorem malformed_result_counterexample:
  "status (analyze_image
     (example_env image_request (Inr (PList [PDict [(''output2'', PNone)]])))) = 500 \<and>
   field (analyze_image
     (example_env image_request (Inr (PList [PDict [(''output2'', PNone)]]))))
     ''predictions'' = None \<and>
   field (analyze_image
     (example_env image_request (Inr (PList [PDict [(''output2'', PNone)]]))))
     ''confidence'' = None \<and>
   status (validate_image
     (example_env image_request (Inr (PList [PDict [(''output2'', PNone)]])))) = 500"
  by (simp add: example_defs analyze_image_def analyze_try_def analyze_extract_def
      validate_image_def validate_try_def validate_decide_def find_predictions_def)

text \<open>
  C3 (amended). In every 200 response of /validate the message is
  \<^verbatim>\<open>Detected Issue: {detectedIssue}\<close> when the reported \<^verbatim>\<open>detectedIssue\<close> is truthy
  (a label that is neither null nor empty), and \<^verbatim>\<open>No civic issue detected\<close> otherwise,
  also when the prediction list is not empty and the selected prediction has no label.
  The claim as stated asks for the first message whenever the prediction list is not
  empty; the counterexample is a list of one prediction without a label.
\<close>

theorem validate_message_follows_label:
  assumes "status (validate_image E) = 200"
  shows "\<exists>d. field (validate_image E) ''detectedIssue'' = Some d \<and>
             field (validate_image E) ''message'' =
               Some (PStr (if truthy d then ''Detected Issue: '' @ py_format E d
                           else ''No civic issue detected''))"
  using validate_image_cases [of E] assms
  by (auto simp: field_def status_def message_of_def)

theorem validate_message_follows_label_witness:
  "status (validate_image (example_env image_request (Inr (raw_result
       [PDict [(''class'', PStr ''pothole''),
               (''confidence'', PFloat (7385903388887613 / 9007199254740992))]])))) = 200 \<and>
   field (validate_image (example_env image_request (Inr (raw_result
       [PDict [(''class'', PStr ''pothole''),
               (''confidence'', PFloat (7385903388887613 / 9007199254740992))]]))))
     ''message'' = Some (PStr ''Detected Issue: pothole'')"
  using validate_message_follows_label [of "example_env image_request (Inr (raw_result
       [PDict [(''class'', PStr ''pothole''),
               (''confidence'', PFloat (7385903388887613 / 9007199254740992))]]))"]
  by (simp add: example_defs validate_image_def validate_try_def validate_decide_def
      find_predictions_def validate_select_def py_max_key_def label_of_def py_format_def)

theorem validate_message_counterexample:
  "raw_predictions (raw_result
       [PDict [(''confidence'', PFloat (7385903388887613 / 9007199254740992))]]) =
     Some [PDict [(''confidence'', PFloat (7385903388887613 / 9007199254740992))]] \<and>
   status (validate_image (example_env image_request (Inr (raw_result
       [PDict [(''confidence'', PFloat (7385903388887613 / 9007199254740992))]])))) = 200 \<and>
   field (validate_image (example_env image_request (Inr (raw_result
       [PDict [(''confidence'', PFloat (7385903388887613 / 9007199254740992))]]))))
     ''detectedIssue'' = Some PNone \<and>
   field (validate_image (example_env image_request (Inr (raw_result
       [PDict [(''confidence'', PFloat (7385903388887613 / 9007199254740992))]]))))
     ''message'' = Some (PStr ''No civic issue detected'') \<and>
   field (validate_image (example_env image_request (Inr (raw_result
       [PDict [(''confidence'', PFloat (7385903388887613 / 9007199254740992))]]))))
     ''message'' \<noteq>
     Some (PStr (''Detected Issue: '' @
       py_format (example_env image_request (Inr (raw_result
         [PDict [(''confidence'', PFloat (7385903388887613 / 9007199254740992))]]))) PNone))"
  by (simp add: example_defs validate_image_def validate_try_def validate_decide_def
      find_predictions_def validate_select_def py_max_key_def label_of_def py_format_def
      message_of_def)

text \<open>
  C4 (amended). The normalizer of /analyze maps a prediction record to
  \<^verbatim>\<open>class\<close> = its \<^verbatim>\<open>class\<close> field if that field is there and truthy, else its \<^verbatim>\<open>label\<close>
  field if there, else null, and to \<^verbatim>\<open>confidence\<close> = its \<^verbatim>\<open>confidence\<close> field if there,
  else 0; /validate reads the label and the confidence of the best prediction the same
  way. For the confidence the presence of the field decides; for the label the value of
  \<^verbatim>\<open>class\<close> does (\<^verbatim>\<open>pred.get('class') or pred.get('label')\<close>). The claim as stated lets
  presence decide for both; the counterexample is a record whose \<^verbatim>\<open>class\<close> is the empty
  string and whose \<^verbatim>\<open>label\<close> is \<^verbatim>\<open>pothole\<close>.
\<close>

theorem normalize_pred_fields:
  "normalize_pred (PDict kvs) =
     Inr (PDict
       [(''class'',
          (case map_of kvs ''class'' of
             Some c \<Rightarrow>
               if truthy c then c
               else (case map_of kvs ''label'' of Some l \<Rightarrow> l | None \<Rightarrow> PNone)
           | None \<Rightarrow> (case map_of kvs ''label'' of Some l \<Rightarrow> l | None \<Rightarrow> PNone))),
        (''confidence'',
          (case map_of kvs ''confidence'' of Some c \<Rightarrow> c | None \<Rightarrow> PInt 0))]) \<and>
   label_of (PDict kvs) =
     Inr (case map_of kvs ''class'' of
            Some c \<Rightarrow>
              if truthy c then c
              else (case map_of kvs ''label'' of Some l \<Rightarrow> l | None \<Rightarrow> PNone)
          | None \<Rightarrow> (case map_of kvs ''label'' of Some l \<Rightarrow> l | None \<Rightarrow> PNone)) \<and>
   confidence_of (PDict kvs) =
     Inr (case map_of kvs ''confidence'' of Some c \<Rightarrow> c | None \<Rightarrow> PInt 0)"
  by (simp add: normalize_pred_def label_of_def confidence_of_def and_then_simps
      split: option.splits)

theorem normalize_pred_fields_witness:
  "normalize_pred (PDict [(''label'', PStr ''pothole'')]) =
     Inr (PDict [(''class'', PStr ''pothole''), (''confidence'', PInt 0)])"
  using normalize_pred_fields [of "[(''label'', PStr ''pothole'')]"]
  by simp

theorem normalize_pred_counterexample:
  "map_of [(''class'', PStr []), (''label'', PStr ''pothole''),
           (''confidence'', PFloat (7385903388887613 / 9007199254740992))] ''class'' =
     Some (PStr []) \<and>
   normalize_pred
     (PDict [(''class'', PStr []), (''label'', PStr ''pothole''),
             (''confidence'', PFloat (7385903388887613 / 9007199254740992))]) =
     Inr (PDict [(''class'', PStr ''pothole''),
                 (''confidence'', PFloat (7385903388887613 / 9007199254740992))]) \<and>
   normalize_pred
     (PDict [(''class'', PStr []), (''label'', PStr ''pothole''),
             (''confidence'', PFloat (7385903388887613 / 9007199254740992))]) \<noteq>
     Inr (PDict [(''class'', PStr []),
                 (''confidence'', PFloat (7385903388887613 / 9007199254740992))])"
  by (simp add: normalize_pred_def label_of_def confidence_of_def and_then_simps)

text \<open>
  C5 (amended). When \<^verbatim>\<open>get_json()\<close> returns an object without \<^verbatim>\<open>image_path\<close>,
  \<^verbatim>\<open>image_url\<close> and \<^verbatim>\<open>image\<close>, whatever else it holds, /validate answers 400 with the
  error \<^verbatim>\<open>No image source provided\<close>, and /analyze answers 400 with the same error if
  the object is not empty and with \<^verbatim>\<open>No data provided\<close> if it is empty. When
  \<^verbatim>\<open>get_json()\<close> returns \<^verbatim>\<open>None\<close> (a body that is JSON \<^verbatim>\<open>null\<close>), /analyze answers 400
  with \<^verbatim>\<open>No data provided\<close>. When \<^verbatim>\<open>get_json()\<close> raises, as it does for a request
  without a body, both handlers answer 500 with the text of the exception, /validate
  also with confidence 0 and \<^verbatim>\<open>allowUpload\<close> false. The claim as stated promises 400
  with \<^verbatim>\<open>No image source provided\<close> in all these cases; the counterexample is the empty
  object sent to /analyze. (What /validate does when \<^verbatim>\<open>get_json()\<close> returns \<^verbatim>\<open>None\<close>
  is left out here.)
\<close>

theorem missing_image_source_is_400:
  "(\<forall>kvs. request_json E = Inr (PDict kvs) \<and> map_of kvs ''image_path'' = None \<and>
          map_of kvs ''image_url'' = None \<and> map_of kvs ''image'' = None \<longrightarrow>
      validate_image E =
        (PDict [(''success'', PBool False),
                (''error'', PStr ''No image source provided'')], 400) \<and>
      analyze_image E =
        (PDict [(''success'', PBool False),
                (''error'', PStr (if kvs = [] then ''No data provided''
                                  else ''No image source provided''))], 400)) \<and>
   (request_json E = Inr PNone \<longrightarrow>
      analyze_image E =
        (PDict [(''success'', PBool False), (''error'', PStr ''No data provided'')], 400)) \<and>
   (\<forall>e. request_json E = Inl e \<longrightarrow>
      analyze_image E =
        (PDict [(''success'', PBool False), (''error'', PStr (str_exn E e))], 500) \<and>
      validate_image E =
        (PDict [(''success'', PBool False),
                (''error'', PStr (str_exn E e)),
                (''confidence'', PInt 0),
                (''allowUpload'', PBool False)], 500))"
  by (auto simp: analyze_image_def analyze_try_def validate_image_def validate_try_def
      image_source_def and_then_simps)

theorem missing_image_source_is_400_witness:
  "analyze_image (example_env (Inr (PDict [(''note'', PStr ''hello'')])) (Inr PNone)) =
     (PDict [(''success'', PBool False),
             (''error'', PStr ''No image source provided'')], 400) \<and>
   validate_image (example_env (Inr (PDict [(''note'', PStr ''hello'')])) (Inr PNone)) =
     (PDict [(''success'', PBool False),
             (''error'', PStr ''No image source provided'')], 400) \<and>
   validate_image (example_env (Inr (PDict [])) (Inr PNone)) =
     (PDict [(''success'', PBool False),
             (''error'', PStr ''No image source provided'')], 400) \<and>
   analyze_image (example_env (Inr PNone) (Inr PNone)) =
     (PDict [(''success'', PBool False), (''error'', PStr ''No data provided'')], 400) \<and>
   analyze_image (example_env (Inl (External ''415 Unsupported Media Type'')) (Inr PNone)) =
     (PDict [(''success'', PBool False),
             (''error'', PStr ''415 Unsupported Media Type'')], 500) \<and>
   validate_image (example_env (Inl (External ''415 Unsupported Media Type'')) (Inr PNone)) =
     (PDict [(''success'', PBool False),
             (''error'', PStr ''415 Unsupported Media Type''),
             (''confidence'', PInt 0),
             (''allowUpload'', PBool False)], 500)"
  using missing_image_source_is_400
      [of "example_env (Inr (PDict [(''note'', PStr ''hello'')])) (Inr PNone)"]
    missing_image_source_is_400
      [of "example_env (Inr (PDict [])) (Inr PNone)"]
    missing_image_source_is_400
      [of "example_env (Inr PNone) (Inr PNone)"]
    missing_image_source_is_400
      [of "example_env (Inl (External ''415 Unsupported Media Type'')) (Inr PNone)"]
  by (simp add: example_env_def)

theorem missing_image_source_counterexample:
  "analyze_image (example_env (Inr (PDict [])) (Inr PNone)) =
     (PDict [(''success'', PBool False), (''error'', PStr ''No data provided'')], 400) \<and>
   analyze_image (example_env (Inr (PDict [])) (Inr PNone)) \<noteq>
     (PDict [(''success'', PBool False),
             (''error'', PStr ''No image source provided'')], 400)"
  by (simp add: example_env_def analyze_image_def analyze_try_def image_source_def
      and_then_simps)

text \<open>
  C6. For a raw result of the documented shape whose predictions have numeric
  confidences, /validate reports the confidence and the label of the earliest
  prediction that attains the maximum confidence: of the prediction at index \<open>i\<close>
  whenever no prediction has a greater confidence and every earlier one has a smaller
  one.
\<close>

theorem validate_selects_first_maximum:
  assumes "workflow_returns E result"
    and "raw_predictions result = Some preds"
    and "\<forall>p\<in>set preds. numeric_prediction p"
    and "i < length preds"
    and "\<forall>j<length preds. confidence_value (preds ! j) \<le> confidence_value (preds ! i)"
    and "\<forall>j<i. confidence_value (preds ! j) < confidence_value (preds ! i)"
  shows "status (validate_image E) = 200 \<and>
         (\<exists>c d. confidence_of (preds ! i) = Inr c \<and> label_of (preds ! i) = Inr d \<and>
                field (validate_image E) ''confidence'' = Some c \<and>
                field (validate_image E) ''detectedIssue'' = Some d)"
proof -
  have "preds \<noteq> []" using assms(4) by auto
  from validate_decide_numeric [OF assms(2) this assms(3)] obtain k c d a where
    k: "k < length preds"
    and c: "confidence_of (preds ! k) = Inr c"
    and d: "label_of (preds ! k) = Inr d"
    and run: "validate_decide result = Inr (c, d, a)"
    and before: "\<forall>j<k. confidence_value (preds ! j) < confidence_value (preds ! k)"
    and top: "\<forall>j<length preds. confidence_value (preds ! j) \<le> confidence_value (preds ! k)"
    by blast
  have "k = i"
  proof (rule ccontr)
    assume "k \<noteq> i"
    then consider "k < i" | "i < k" by linarith
    then show False
    proof cases
      case 1
      with assms(6) have "confidence_value (preds ! k) < confidence_value (preds ! i)" by simp
      moreover from top assms(4)
      have "confidence_value (preds ! i) \<le> confidence_value (preds ! k)" by simp
      ultimately show False by simp
    next
      case 2
      with before have "confidence_value (preds ! i) < confidence_value (preds ! k)" by simp
      moreover from assms(5) k
      have "confidence_value (preds ! k) \<le> confidence_value (preds ! i)" by simp
      ultimately show False by simp
    qed
  qed
  with validate_image_decided [OF assms(1) run] c d show ?thesis
    by (simp add: field_def status_def)
qed

theorem validate_selects_first_maximum_witness:
  "field (validate_image (example_env image_request (Inr (raw_result
       [PDict [(''class'', PStr ''crack''), (''confidence'', PFloat (1 / 2))],
        PDict [(''class'', PStr ''pothole''), (''confidence'', PFloat (3 / 4))],
        PDict [(''class'', PStr ''garbage''), (''confidence'', PFloat (3 / 4))]]))))
     ''detectedIssue'' = Some (PStr ''pothole'') \<and>
   field (validate_image (example_env image_request (Inr (raw_result
       [PDict [(''class'', PStr ''crack''), (''confidence'', PFloat (1 / 2))],
        PDict [(''class'', PStr ''pothole''), (''confidence'', PFloat (3 / 4))],
        PDict [(''class'', PStr ''garbage''), (''confidence'', PFloat (3 / 4))]]))))
     ''confidence'' = Some (PFloat (3 / 4))"
  using validate_selects_first_maximum
      [of "example_env image_request (Inr (raw_result
             [PDict [(''class'', PStr ''crack''), (''confidence'', PFloat (1 / 2))],
              PDict [(''class'', PStr ''pothole''), (''confidence'', PFloat (3 / 4))],
              PDict [(''class'', PStr ''garbage''), (''confidence'', PFloat (3 / 4))]]))"
          "raw_result
             [PDict [(''class'', PStr ''crack''), (''confidence'', PFloat (1 / 2))],
              PDict [(''class'', PStr ''pothole''), (''confidence'', PFloat (3 / 4))],
              PDict [(''class'', PStr ''garbage''), (''confidence'', PFloat (3 / 4))]]"
          "[PDict [(''class'', PStr ''crack''), (''confidence'', PFloat (1 / 2))],
            PDict [(''class'', PStr ''pothole''), (''confidence'', PFloat (3 / 4))],
            PDict [(''class'', PStr ''garbage''), (''confidence'', PFloat (3 / 4))]]"
          1]
  by (simp add: example_defs label_of_def nth_Cons' less_Suc_eq numeral_3_eq_3)

text \<open>
  C7. In every 200 response of /analyze to a request for which the collaborator returned
  \<open>result\<close>: the confidence is 0 when the normalized list is empty; otherwise it is
  Python's \<^verbatim>\<open>max\<close> of the confidences of the normalized list, which is the greatest of
  them when they are numbers; and when the raw result has the documented shape, the
  normalized list has as many items as the source list, the item at each index being
  the normalization of the source item at that index.
\<close>

theorem analyze_top_confidence:
  assumes "workflow_returns E result" and "status (analyze_image E) = 200"
  shows "\<exists>ps c.
           field (analyze_image E) ''predictions'' = Some (PList ps) \<and>
           field (analyze_image E) ''confidence'' = Some c \<and>
           (ps = [] \<longrightarrow> c = PInt 0) \<and>
           (ps \<noteq> [] \<longrightarrow> and_then (map_exn confidence_of ps) py_max = Inr c) \<and>
           (ps \<noteq> [] \<and> (\<forall>p\<in>set ps. numeric_prediction p) \<longrightarrow>
              num_val c = Some (Max (confidence_value ` set ps))) \<and>
           (\<forall>preds. raw_predictions result = Some preds \<longrightarrow>
              length ps = length preds \<and>
              (\<forall>i<length preds. normalize_pred (preds ! i) = Inr (ps ! i)))"
proof -
  from analyze_image_200 [OF assms(2)] obtain result' ps c where
    ret: "workflow_returns E result'" and ext': "analyze_extract result' = Inr (ps, c)"
    and an: "analyze_image E =
             (PDict [(''success'', PBool True),
                     (''predictions'', PList ps),
                     (''confidence'', c),
                     (''raw_result'', result')], 200)"
    by blast
  have "result' = result" using ret assms(1) by (rule workflow_returns_unique)
  with ext' have ext: "analyze_extract result = Inr (ps, c)" by simp
  have fields: "field (analyze_image E) ''predictions'' = Some (PList ps)"
    "field (analyze_image E) ''confidence'' = Some c"
    using an by (simp_all add: field_def)
  from analyze_extract_Inr [OF ext]
  have rest: "(ps = [] \<longrightarrow> c = PInt 0) \<and>
       (ps \<noteq> [] \<longrightarrow> and_then (map_exn confidence_of ps) py_max = Inr c) \<and>
       (\<forall>preds. raw_predictions result = Some preds \<longrightarrow>
          length ps = length preds \<and>
          (\<forall>i<length preds. normalize_pred (preds ! i) = Inr (ps ! i)))"
  proof
    assume none: "find_predictions result = Inr None \<and> ps = [] \<and> c = PInt 0"
    have "\<forall>preds. raw_predictions result = Some preds \<longrightarrow> preds = []"
    proof (intro allI impI)
      fix preds assume "raw_predictions result = Some preds"
      from find_predictions_raw [OF this] none show "preds = []"
        by (simp split: if_splits)
    qed
    with none show ?thesis by auto
  next
    assume "\<exists>mp items cs. find_predictions result = Inr (Some mp) \<and> py_iter mp = Inr items \<and>
            map_exn normalize_pred items = Inr ps \<and> map_exn confidence_of items = Inr cs \<and>
            py_max cs = Inr c"
    then obtain mp items cs where found: "find_predictions result = Inr (Some mp)"
      and items: "py_iter mp = Inr items"
      and ps: "map_exn normalize_pred items = Inr ps"
      and cs: "map_exn confidence_of items = Inr cs" "py_max cs = Inr c"
      by blast
    have "map_exn confidence_of ps = Inr cs"
      using map_exn_normalize_confidences [OF ps] cs(1) by simp
    then have top: "and_then (map_exn confidence_of ps) py_max = Inr c"
      using cs(2) by (simp add: and_then_simps)
    have "length cs = length items" using map_exn_Inr [OF cs(1)] by simp
    moreover have "length ps = length items" using map_exn_Inr [OF ps] by simp
    moreover have "cs \<noteq> []" using cs(2) by (rule py_max_Inr_nonempty)
    ultimately have nonempty: "ps \<noteq> []" by auto
    have "\<forall>preds. raw_predictions result = Some preds \<longrightarrow>
          length ps = length preds \<and>
          (\<forall>i<length preds. normalize_pred (preds ! i) = Inr (ps ! i))"
    proof (intro allI impI)
      fix preds assume "raw_predictions result = Some preds"
      from find_predictions_raw [OF this] found have "mp = PList preds"
        by (simp split: if_splits)
      with items have "items = preds" by simp
      with map_exn_Inr [OF ps]
      show "length ps = length preds \<and>
          (\<forall>i<length preds. normalize_pred (preds ! i) = Inr (ps ! i))" by simp
    qed
    with top nonempty show ?thesis by simp
  qed
  have "ps \<noteq> [] \<and> (\<forall>p\<in>set ps. numeric_prediction p) \<longrightarrow>
              num_val c = Some (Max (confidence_value ` set ps))"
    using rest python_max_is_Max by blast
  with fields rest show ?thesis by blast
qed

theorem analyze_top_confidence_witness:
  "workflow_returns
     (example_env image_request (Inr (raw_result
       [PDict [(''class'', PStr ''crack''), (''confidence'', PFloat (1 / 2))],
        PDict [(''label'', PStr ''pothole''), (''confidence'', PFloat (3 / 4))]])))
     (raw_result
       [PDict [(''class'', PStr ''crack''), (''confidence'', PFloat (1 / 2))],
        PDict [(''label'', PStr ''pothole''), (''confidence'', PFloat (3 / 4))]]) \<and>
   analyze_image
     (example_env image_request (Inr (raw_result
       [PDict [(''class'', PStr ''crack''), (''confidence'', PFloat (1 / 2))],
        PDict [(''label'', PStr ''pothole''), (''confidence'', PFloat (3 / 4))]]))) =
     (PDict [(''success'', PBool True),
             (''predictions'', PList
               [PDict [(''class'', PStr ''crack''), (''confidence'', PFloat (1 / 2))],
                PDict [(''class'', PStr ''pothole''), (''confidence'', PFloat (3 / 4))]]),
             (''confidence'', PFloat (3 / 4)),
             (''raw_result'', raw_result
               [PDict [(''class'', PStr ''crack''), (''confidence'', PFloat (1 / 2))],
                PDict [(''label'', PStr ''pothole''), (''confidence'', PFloat (3 / 4))]])],
      200) \<and>
   (\<exists>ps c.
      field (analyze_image
        (example_env image_request (Inr (raw_result
          [PDict [(''class'', PStr ''crack''), (''confidence'', PFloat (1 / 2))],
           PDict [(''label'', PStr ''pothole''), (''confidence'', PFloat (3 / 4))]]))))
        ''predictions'' = Some (PList ps) \<and>
      field (analyze_image
        (example_env image_request (Inr (raw_result
          [PDict [(''class'', PStr ''crack''), (''confidence'', PFloat (1 / 2))],
           PDict [(''label'', PStr ''pothole''), (''confidence'', PFloat (3 / 4))]]))))
        ''confidence'' = Some c \<and>
      length ps = 2 \<and>
      num_val c = Some (Max (confidence_value ` set ps)))"
proof -
  let ?preds = "[PDict [(''class'', PStr ''crack''), (''confidence'', PFloat (1 / 2))],
                 PDict [(''label'', PStr ''pothole''), (''confidence'', PFloat (3 / 4))]]"
  let ?E = "example_env image_request (Inr (raw_result ?preds))"
  have ret: "workflow_returns ?E (raw_result ?preds)"
    by (simp add: example_defs)
  have run: "analyze_image ?E =
     (PDict [(''success'', PBool True),
             (''predictions'', PList
               [PDict [(''class'', PStr ''crack''), (''confidence'', PFloat (1 / 2))],
                PDict [(''class'', PStr ''pothole''), (''confidence'', PFloat (3 / 4))]]),
             (''confidence'', PFloat (3 / 4)),
             (''raw_result'', raw_result ?preds)], 200)"
    by (simp add: example_defs analyze_image_def analyze_try_def analyze_extract_def
        find_predictions_def normalize_pred_def label_of_def py_max_def)
  then have ok: "status (analyze_image ?E) = 200" by (simp add: status_def)
  from analyze_top_confidence [OF ret ok] obtain ps c where
    f: "field (analyze_image ?E) ''predictions'' = Some (PList ps)"
      "field (analyze_image ?E) ''confidence'' = Some c"
    and top: "ps \<noteq> [] \<and> (\<forall>p\<in>set ps. numeric_prediction p) \<longrightarrow>
              num_val c = Some (Max (confidence_value ` set ps))"
    and len: "\<forall>preds. raw_predictions (raw_result ?preds) = Some preds \<longrightarrow>
              length ps = length preds \<and>
              (\<forall>i<length preds. normalize_pred (preds ! i) = Inr (ps ! i))"
    by blast
  from f(1) run have ps: "ps =
      [PDict [(''class'', PStr ''crack''), (''confidence'', PFloat (1 / 2))],
       PDict [(''class'', PStr ''pothole''), (''confidence'', PFloat (3 / 4))]]"
    by (simp add: field_def)
  have "raw_predictions (raw_result ?preds) = Some ?preds"
    by (simp add: example_defs)
  with len have "length ps = 2" by simp
  moreover have "num_val c = Some (Max (confidence_value ` set ps))"
    using top ps by (simp add: numeric_prediction_def)
  ultimately show ?thesis using ret run f by blast
qed

text \<open>
  C8. When the request names an image source and either the collaborator call raises
  or the processing of its result does, /validate answers 500 with a body that holds the
  text of the exception, \<^verbatim>\<open>confidence\<close> 0 and \<^verbatim>\<open>allowUpload\<close> false.
\<close>

theorem validate_exception_is_500:
  assumes "request_json E = Inr data"
    and "image_source data = Inr src"
    and "truthy src"
    and "run_workflow E src = Inl e \<or>
         (\<exists>result. run_workflow E src = Inr result \<and> validate_decide result = Inl e)"
  shows "validate_image E =
           (PDict [(''success'', PBool False),
                   (''error'', PStr (str_exn E e)),
                   (''confidence'', PInt 0),
                   (''allowUpload'', PBool False)], 500)"
proof -
  have "validate_try E = Inl e"
    using assms by (auto simp: validate_try_def and_then_simps)
  then show ?thesis by (simp add: validate_image_def)
qed

theorem validate_exception_is_500_witness:
  "validate_image (example_env image_request (Inl (External ''connection refused''))) =
     (PDict [(''success'', PBool False),
             (''error'', PStr ''connection refused''),
             (''confidence'', PInt 0),
             (''allowUpload'', PBool False)], 500) \<and>
   validate_decide (PList [PDict [(''output2'', PNone)]]) = Inl TypeError \<and>
   validate_image (example_env image_request (Inr (PList [PDict [(''output2'', PNone)]]))) =
     (PDict [(''success'', PBool False),
             (''error'', PStr (example_str_exn TypeError)),
             (''confidence'', PInt 0),
             (''allowUpload'', PBool False)], 500)"
  using validate_exception_is_500
      [of "example_env image_request (Inl (External ''connection refused''))"
          "PDict [(''image_url'', PStr ''road.jpg'')]" "PStr ''road.jpg''"
          "External ''connection refused''"]
    validate_exception_is_500
      [of "example_env image_request (Inr (PList [PDict [(''output2'', PNone)]]))"
          "PDict [(''image_url'', PStr ''road.jpg'')]" "PStr ''road.jpg''" TypeError]
  by (simp add: example_defs validate_decide_def find_predictions_def)

text \<open>
  C9. The two handlers agree on the confidence. Whenever /validate answers 200, so does
  /analyze, with the same confidence; whenever /analyze answers 200 with a numeric
  confidence, so does /validate, with the same confidence; and for every raw result
  that leads to a prediction list, lines 66 to 82 of /analyze compute the top confidence
  \<open>c\<close> exactly when lines 134 to 136 of /validate select a prediction of confidence
  \<open>c\<close>.
\<close>

theorem handlers_agree_on_confidence:
  "(status (validate_image E) = 200 \<longrightarrow>
      status (analyze_image E) = 200 \<and>
      field (analyze_image E) ''confidence'' = field (validate_image E) ''confidence'') \<and>
   (status (analyze_image E) = 200 \<and>
    (\<exists>c r. field (analyze_image E) ''confidence'' = Some c \<and> num_val c = Some r) \<longrightarrow>
      status (validate_image E) = 200 \<and>
      field (validate_image E) ''confidence'' = field (analyze_image E) ''confidence'') \<and>
   (\<forall>result predictions c. find_predictions result = Inr (Some predictions) \<longrightarrow>
      (\<exists>ps. analyze_extract result = Inr (ps, c)) =
      (\<exists>d. validate_select predictions = Inr (c, d)))"
proof (intro conjI impI allI)
  fix result predictions c
  assume "find_predictions result = Inr (Some predictions)"
  then show "(\<exists>ps. analyze_extract result = Inr (ps, c)) =
      (\<exists>d. validate_select predictions = Inr (c, d))"
    using select_gives_extract extract_gives_select by blast
next
  assume "status (validate_image E) = 200"
  from validate_image_200 [OF this] obtain result c d a where
    ret: "workflow_returns E result" and dec: "validate_decide result = Inr (c, d, a)"
    and v: "validate_image E =
             (PDict [(''success'', PBool True),
                     (''confidence'', c),
                     (''modelConfidence'', c),
                     (''allowUpload'', PBool a),
                     (''message'', PStr (message_of E d)),
                     (''detectedIssue'', d)], 200)"
    by blast
  from validate_decide_gives_analyze [OF dec] obtain ps where
    "analyze_extract result = Inr (ps, c)" by blast
  from analyze_image_extracted [OF ret this] v
  show "status (analyze_image E) = 200"
    and "field (analyze_image E) ''confidence'' = field (validate_image E) ''confidence''"
    by (simp_all add: field_def status_def)
next
  assume both: "status (analyze_image E) = 200 \<and>
    (\<exists>c r. field (analyze_image E) ''confidence'' = Some c \<and> num_val c = Some r)"
  from analyze_image_200 obtain result ps c where
    ret: "workflow_returns E result" and ext: "analyze_extract result = Inr (ps, c)"
    and an: "analyze_image E =
             (PDict [(''success'', PBool True),
                     (''predictions'', PList ps),
                     (''confidence'', c),
                     (''raw_result'', result)], 200)"
    using both by blast
  from both an obtain r where "num_val c = Some r" by (auto simp: field_def)
  from analyze_extract_gives_validate [OF ext this] obtain d a where
    "validate_decide result = Inr (c, d, a)" by blast
  from validate_image_decided [OF ret this] an
  show "status (validate_image E) = 200"
    and "field (validate_image E) ''confidence'' = field (analyze_image E) ''confidence''"
    by (simp_all add: field_def status_def)
qed

theorem handlers_agree_on_confidence_witness:
  "status (validate_image (example_env image_request (Inr (raw_result
       [PDict [(''class'', PStr ''crack''), (''confidence'', PFloat (1 / 2))],
        PDict [(''label'', PStr ''pothole'')],
        PDict [(''class'', PStr ''garbage''), (''confidence'', PFloat (3 / 4))]])))) = 200 \<and>
   field (analyze_image (example_env image_request (Inr (raw_result
       [PDict [(''class'', PStr ''crack''), (''confidence'', PFloat (1 / 2))],
        PDict [(''label'', PStr ''pothole'')],
        PDict [(''class'', PStr ''garbage''), (''confidence'', PFloat (3 / 4))]]))))
     ''confidence'' = Some (PFloat (3 / 4)) \<and>
   field (validate_image (example_env image_request (Inr (raw_result
       [PDict [(''class'', PStr ''crack''), (''confidence'', PFloat (1 / 2))],
        PDict [(''label'', PStr ''pothole'')],
        PDict [(''class'', PStr ''garbage''), (''confidence'', PFloat (3 / 4))]]))))
     ''confidence'' = Some (PFloat (3 / 4))"
  using handlers_agree_on_confidence [of "example_env image_request (Inr (raw_result
       [PDict [(''class'', PStr ''crack''), (''confidence'', PFloat (1 / 2))],
        PDict [(''label'', PStr ''pothole'')],
        PDict [(''class'', PStr ''garbage''), (''confidence'', PFloat (3 / 4))]]))"]
  by (simp add: example_defs validate_image_def validate_try_def validate_decide_def
      find_predictions_def validate_select_def py_max_key_def label_of_def)

text \<open>
  C10. Every response of /validate, whatever its status, satisfies: when \<^verbatim>\<open>allowUpload\<close>
  is true, the status is 200 and the reported \<^verbatim>\<open>confidence\<close> is a number that is at
  least the threshold; a response with status 400 or 500 never reports
  \<^verbatim>\<open>allowUpload\<close> true.
\<close>

theorem validate_allow_implies_confident:
  "(field (validate_image E) ''allowUpload'' = Some (PBool True) \<longrightarrow>
      status (validate_image E) = 200 \<and>
      (\<exists>c r. field (validate_image E) ''confidence'' = Some c \<and>
             num_val c = Some r \<and> threshold \<le> r)) \<and>
   (status (validate_image E) = 400 \<or> status (validate_image E) = 500 \<longrightarrow>
      field (validate_image E) ''allowUpload'' \<noteq> Some (PBool True))"
proof -
  consider
    (raised) e where "validate_image E =
          (PDict [(''success'', PBool False),
                  (''error'', PStr (str_exn E e)),
                  (''confidence'', PInt 0),
                  (''allowUpload'', PBool False)], 500)"
  | (no_source) "validate_image E =
     (PDict [(''success'', PBool False), (''error'', PStr ''No image source provided'')], 400)"
  | (decided) result c d a where "validate_decide result = Inr (c, d, a)"
      "validate_image E =
        (PDict [(''success'', PBool True),
                (''confidence'', c),
                (''modelConfidence'', c),
                (''allowUpload'', PBool a),
                (''message'', PStr (message_of E d)),
                (''detectedIssue'', d)], 200)"
    using validate_image_cases [of E] by blast
  then show ?thesis
  proof cases
    case raised
    then show ?thesis by (simp add: field_def status_def)
  next
    case no_source
    then show ?thesis by (simp add: field_def status_def)
  next
    case decided
    show ?thesis
    proof (cases a)
      case True
      with decided(1) have "validate_decide result = Inr (c, d, True)" by simp
      from validate_decide_allows [OF this] obtain r where
        "num_val c = Some r" "threshold \<le> r" by blast
      with decided(2) show ?thesis by (simp add: field_def status_def)
    next
      case False
      with decided(2) show ?thesis by (simp add: field_def status_def)
    qed
  qed
qed

theorem validate_allow_implies_confident_witness:
  "field (validate_image (example_env image_request (Inr (raw_result
       [PDict [(''class'', PStr ''pothole''),
               (''confidence'', PFloat (7385903388887613 / 9007199254740992))]]))))
     ''allowUpload'' = Some (PBool True) \<and>
   status (validate_image (example_env image_request (Inr (raw_result
       [PDict [(''class'', PStr ''pothole''),
               (''confidence'', PFloat (7385903388887613 / 9007199254740992))]])))) = 200 \<and>
   (\<exists>c r. field (validate_image (example_env image_request (Inr (raw_result
       [PDict [(''class'', PStr ''pothole''),
               (''confidence'', PFloat (7385903388887613 / 9007199254740992))]]))))
     ''confidence'' = Some c \<and> num_val c = Some r \<and> threshold \<le> r)"
  using validate_allow_implies_confident [of "example_env image_request (Inr (raw_result
       [PDict [(''class'', PStr ''pothole''),
               (''confidence'', PFloat (7385903388887613 / 9007199254740992))]]))"]
  by (simp add: example_env_def image_request_def raw_result_def validate_image_def
      validate_try_def image_source_def validate_decide_def find_predictions_def
      validate_select_def py_max_key_def confidence_of_def label_of_def threshold_def
      and_then_simps field_def status_def)

end
